theory Spec2Isabelle
  imports Complex_Main "HOL-Library.AList"
begin

section \<open>Data model (domain/types.ts)\<close>

text \<open>
  JavaScript numbers are modelled as \<^typ>\<open>real\<close>: the non-finite values (NaN and the
  infinities), the negative zero and rounding are outside this model. A \<open>{x, y}\<close> object
  and a ring entry \<open>[x, y]\<close> are both a pair, an optional field is an \<open>option\<close>
  (absent and \<open>undefined\<close> are both \<open>None\<close>). Counts that the code uses as loop
  bounds (\<open>partitions\<close>) are modelled as \<^typ>\<open>int\<close>.
\<close>

type_synonym point = "real \<times> real"

datatype units = Cm | M | Ft

record rect_shape =
  rect_x :: real
  rect_y :: real
  rect_width :: real
  rect_height :: real
  rect_rotation :: "real option"
  rect_cornerRadius :: "real option"

text \<open>
  Modelled from the spec: the type declarations of the ellipse shape, of the optional
  \<open>holes\<close> of polygons and multipolygons, of the label offsets of an area, of the mirror
  axis and of the payloads of the commands \<open>area/create-ellipse\<close>, \<open>area/set-ellipse\<close>,
  \<open>area/mirror\<close>, \<open>area/subtract\<close> and \<open>area/set-*-label-offset\<close> are missing
  from the types file; they are taken from the spec (\<open>ellipse { cx, cy, rx, ry }\<close>,
  \<open>polygon { points, holes? }\<close>, \<open>multipolygon { polygons, holes? }\<close>) and from the
  fields the command interpreter reads and writes.
\<close>

record ellipse_shape =
  ell_cx :: real
  ell_cy :: real
  ell_rx :: real
  ell_ry :: real

record polygon_shape =
  poly_points :: "point list"
  poly_holes :: "point list list option"
  poly_rotation :: "real option"

record multipolygon_shape =
  mp_polygons :: "point list list"
  mp_holes :: "point list list list option"

datatype shape =
    Rect rect_shape
  | Ellipse ellipse_shape
  | Polygon polygon_shape
  | MultiPolygon multipolygon_shape

record area =
  area_id :: string
  area_name :: string
  fill :: string
  stroke :: string
  strokeWidth :: real
  shape :: shape
  parentId :: "string option"
  labelOffset :: "point option"
  edgeLabelOffsets :: "(string \<times> point) list option"
  radiusLabelOffset :: "point option"

record area_group =
  group_id :: string
  group_name :: string
  areaIds :: "string list"
  locked :: "bool option"
  visible :: "bool option"

text \<open>
  The geometry functions take \<open>bounds: {width, height}\<close> and are called with the canvas
  of the plan: the canvas extends the bounds record.
\<close>

record bounds =
  b_width :: real
  b_height :: real

record canvas = bounds +
  zoom :: real
  pan :: point

record meta =
  meta_name :: string
  createdAt :: string
  updatedAt :: string

record plan =
  version :: string
  units :: units
  canvas :: canvas
  areas :: "area list"
  areaGroups :: "area_group list option"
  meta :: meta

type_synonym selection = "string list"

datatype rect_handle = N | S | E | W | NE | NW | SE | SW

datatype partition_direction = Horizontal | Vertical

datatype mirror_axis = MirrorHorizontal | MirrorVertical

text \<open>\<open>handle.includes(c)\<close> on the handle's name.\<close>

fun handle_name :: "rect_handle \<Rightarrow> string" where
  "handle_name N = ''n''"
| "handle_name S = ''s''"
| "handle_name E = ''e''"
| "handle_name W = ''w''"
| "handle_name NE = ''ne''"
| "handle_name NW = ''nw''"
| "handle_name SE = ''se''"
| "handle_name SW = ''sw''"

definition handle_includes :: "rect_handle \<Rightarrow> char \<Rightarrow> bool" where
  "handle_includes h c = (c \<in> set (handle_name h))"

section \<open>Floating-point arithmetic\<close>

text \<open>
  A JavaScript number is an IEEE 754 double: the result of \<open>+\<close>, \<open>-\<close>, \<open>*\<close> and \<open>/\<close> is the
  exact result rounded to the nearest number with 53 significant bits, a tie going to the
  even significand; \<open>%\<close>, \<open>Math.min\<close>, \<open>Math.max\<close>, \<open>Math.abs\<close> and the comparisons are
  exact. \<open>roundDouble\<close> is that rounding with an unbounded exponent: the overflow to an
  infinity and the gradual underflow below \<open>2^-1022\<close> are not modelled.
\<close>

definition roundHalfEven :: "real \<Rightarrow> int" where
  "roundHalfEven x =
     (let f = \<lfloor>x\<rfloor>; d = x - of_int f
      in if d < 1 / 2 then f else if 1 / 2 < d then f + 1 else if even f then f else f + 1)"

definition roundDouble :: "real \<Rightarrow> real" where
  "roundDouble x =
     (if x = 0 then 0
      else (let e = \<lfloor>log 2 \<bar>x\<bar>\<rfloor> - 52
            in sgn x * (of_int (roundHalfEven (\<bar>x\<bar> / 2 powi e)) * 2 powi e)))"

text \<open>The magnitude of the rounded value of a positive number.\<close>

definition roundPos :: "real \<Rightarrow> real" where
  "roundPos m =
     of_int (roundHalfEven (m / 2 powi (\<lfloor>log 2 m\<rfloor> - 52))) * 2 powi (\<lfloor>log 2 m\<rfloor> - 52)"

text \<open>
  What the proofs below use of a rounding: it is monotone and its relative error is at
  most \<open>u\<close>. \<open>roundDouble\<close> is such a rounding with \<open>u = 2^-53\<close>, and the identity, that
  is exact arithmetic, is one with \<open>u = 0\<close>.
\<close>

definition rounding :: "real \<Rightarrow> (real \<Rightarrow> real) \<Rightarrow> bool" where
  "rounding u rnd = (0 \<le> u \<and> u \<le> 1 \<and> mono rnd \<and> (\<forall>x. \<bar>rnd x - x\<bar> \<le> u * \<bar>x\<bar>))"

section \<open>Geometry primitives (domain/geometry.ts, in src/unnamed/part_001)\<close>

definition MIN_SIZE :: real where
  "MIN_SIZE = 0.25"

definition clamp :: "real \<Rightarrow> real \<Rightarrow> real \<Rightarrow> real" where
  "clamp v lo hi = min (max v lo) hi"

definition cloneRect :: "rect_shape \<Rightarrow> rect_shape" where
  "cloneRect r = r"

definition translatePolygon :: "point list \<Rightarrow> real \<times> real \<Rightarrow> point list" where
  "translatePolygon ps delta = map (\<lambda>p. (fst p + fst delta, snd p + snd delta)) ps"

definition applyRectResize ::
  "rect_shape \<Rightarrow> rect_handle \<Rightarrow> real \<times> real \<Rightarrow> 'a bounds_scheme \<Rightarrow> real \<Rightarrow> rect_shape" where
  "applyRectResize r h delta bnds mn =
     (let x0 = rect_x r; y0 = rect_y r; w0 = rect_width r; h0 = rect_height r;
          maxWidth = b_width bnds; maxHeight = b_height bnds;
          w1 = (if handle_includes h CHR ''e'' then clamp (w0 + fst delta) mn (maxWidth - x0) else w0);
          h1 = (if handle_includes h CHR ''s'' then clamp (h0 + snd delta) mn (maxHeight - y0) else h0);
          nextX = clamp (x0 + fst delta) 0 (x0 + w1 - mn);
          w2 = (if handle_includes h CHR ''w'' then clamp (w1 - (nextX - x0)) mn (maxWidth - nextX) else w1);
          x2 = (if handle_includes h CHR ''w'' then nextX else x0);
          nextY = clamp (y0 + snd delta) 0 (y0 + h1 - mn);
          h2 = (if handle_includes h CHR ''n'' then clamp (h1 - (nextY - y0)) mn (maxHeight - nextY) else h1);
          y2 = (if handle_includes h CHR ''n'' then nextY else y0);
          w3 = max mn (min w2 maxWidth);
          h3 = max mn (min h2 maxHeight);
          x3 = clamp x2 0 (maxWidth - w3);
          y3 = clamp y2 0 (maxHeight - h3)
      in r\<lparr>rect_x := x3, rect_y := y3, rect_width := w3, rect_height := h3\<rparr>)"

definition constrainRectToBounds :: "rect_shape \<Rightarrow> 'a bounds_scheme \<Rightarrow> real \<Rightarrow> rect_shape" where
  "constrainRectToBounds r bnds mn =
     (let x1 = clamp (rect_x r) 0 (max 0 (b_width bnds - mn));
          y1 = clamp (rect_y r) 0 (max 0 (b_height bnds - mn));
          w1 = clamp (rect_width r) mn (b_width bnds - x1);
          h1 = clamp (rect_height r) mn (b_height bnds - y1)
      in r\<lparr>rect_x := x1, rect_y := y1, rect_width := w1, rect_height := h1\<rparr>)"

definition moveRect :: "rect_shape \<Rightarrow> real \<times> real \<Rightarrow> 'a bounds_scheme \<Rightarrow> rect_shape" where
  "moveRect r delta bnds =
     (let x1 = clamp (rect_x r + fst delta) 0 (max 0 (b_width bnds - rect_width r));
          y1 = clamp (rect_y r + snd delta) 0 (max 0 (b_height bnds - rect_height r))
      in r\<lparr>rect_x := x1, rect_y := y1\<rparr>)"

definition rectsOverlap :: "rect_shape \<Rightarrow> rect_shape \<Rightarrow> bool" where
  "rectsOverlap a b =
     (rect_x a < rect_x b + rect_width b \<and> rect_x a + rect_width a > rect_x b \<and>
      rect_y a < rect_y b + rect_height b \<and> rect_y a + rect_height a > rect_y b)"

text \<open>A fresh \<open>{type: 'rect', x, y, width, height}\<close> object: no rotation, no corner radius.\<close>

definition mkRect :: "real \<Rightarrow> real \<Rightarrow> real \<Rightarrow> real \<Rightarrow> rect_shape" where
  "mkRect x0 y0 w0 h0 =
     \<lparr>rect_x = x0, rect_y = y0, rect_width = w0, rect_height = h0,
      rect_rotation = None, rect_cornerRadius = None\<rparr>"

definition splitRectEvenly :: "rect_shape \<Rightarrow> int \<Rightarrow> partition_direction \<Rightarrow> rect_shape list" where
  "splitRectEvenly r count direction =
     (if count \<le> 1 then [cloneRect r]
      else if direction = Vertical then
        (let slice = rect_width r / of_int count
         in map (\<lambda>i. mkRect (rect_x r + slice * of_nat i) (rect_y r) slice (rect_height r))
                [0 ..< nat count])
      else
        (let slice = rect_height r / of_int count
         in map (\<lambda>i. mkRect (rect_x r) (rect_y r + slice * of_nat i) (rect_width r) slice)
                [0 ..< nat count]))"

text \<open>
  \<open>Math.min(...xs)\<close> and \<open>Math.max(...xs)\<close>. Of no argument they are the infinities,
  which \<^typ>\<open>real\<close> does not have: the functions are left unspecified on the empty list.
\<close>

fun minOf :: "real list \<Rightarrow> real" where
  "minOf (v # vs) = foldl min v vs"

fun maxOf :: "real list \<Rightarrow> real" where
  "maxOf (v # vs) = foldl max v vs"

text \<open>The box \<open>{x, y, width, height}\<close> that \<open>shapeBoundingBox\<close> returns, as a fresh rect.\<close>

definition shapePoints :: "shape \<Rightarrow> point list" where
  "shapePoints s =
     (case s of
        Polygon p \<Rightarrow> poly_points p @ (case poly_holes p of None \<Rightarrow> [] | Some hs \<Rightarrow> concat hs)
      | MultiPolygon m \<Rightarrow>
          concat (mp_polygons m) @ (case mp_holes m of None \<Rightarrow> [] | Some hs \<Rightarrow> concat (concat hs))
      | _ \<Rightarrow> [])"

definition shapeBoundingBox :: "shape \<Rightarrow> rect_shape" where
  "shapeBoundingBox s =
     (case s of
        Rect r \<Rightarrow> mkRect (rect_x r) (rect_y r) (rect_width r) (rect_height r)
      | Ellipse e \<Rightarrow> mkRect (ell_cx e - ell_rx e) (ell_cy e - ell_ry e) (ell_rx e * 2) (ell_ry e * 2)
      | _ \<Rightarrow>
          (let pts = shapePoints s; xs = map fst pts; ys = map snd pts;
               minX = minOf xs; maxX = maxOf xs; minY = minOf ys; maxY = maxOf ys
           in mkRect minX minY (maxX - minX) (maxY - minY)))"

text \<open>
  The remainder operator \<open>%\<close> of JavaScript on numbers: the quotient is truncated towards
  zero, so the result has the sign of the dividend. (A zero divisor gives NaN in JavaScript;
  the only divisor used is 360.)
\<close>

definition js_rem :: "real \<Rightarrow> real \<Rightarrow> real" where
  "js_rem a b = a - b * of_int (if 0 \<le> a / b then \<lfloor>a / b\<rfloor> else - \<lfloor>- (a / b)\<rfloor>)"

definition snaps :: "real list" where
  "snaps = [0, 15, 30, 45, 90, 135, 180, 225, 270, 315]"

text \<open>
  The body of the \<open>forEach\<close> of \<open>snapAngle\<close>, on the pair \<open>(best, bestDelta)\<close>. The
  subtractions and the addition of \<open>(angle - s + 540) % 360 - 180\<close> round; the rounding is
  the parameter \<open>rnd\<close>.
\<close>

definition snapDelta :: "(real \<Rightarrow> real) \<Rightarrow> real \<Rightarrow> real \<Rightarrow> real" where
  "snapDelta rnd angle s = \<bar>rnd (js_rem (rnd (rnd (angle - s) + 540)) 360 - 180)\<bar>"

definition snapStep :: "(real \<Rightarrow> real) \<Rightarrow> real \<Rightarrow> real \<times> real \<Rightarrow> real \<Rightarrow> real \<times> real" where
  "snapStep rnd angle acc s =
     (let delta = snapDelta rnd angle s
      in if delta < snd acc then (s, delta) else acc)"

definition snapAngle :: "(real \<Rightarrow> real) \<Rightarrow> real \<Rightarrow> bool \<Rightarrow> real" where
  "snapAngle rnd angle enabled =
     (if \<not> enabled then angle else fst (foldl (snapStep rnd angle) (angle, 360) snaps))"

text \<open>
  Following the spec's words, the circular distance between two angles in degrees: the
  distance from their difference to the nearest multiple of 360.
\<close>

definition circ_dist :: "real \<Rightarrow> real \<Rightarrow> real" where
  "circ_dist a s = (let r = (a - s) - 360 * of_int \<lfloor>(a - s) / 360\<rfloor> in min r (360 - r))"

text \<open>The set of snap angles that the spec names: the multiples of 15 from 0 to 315.\<close>

definition spec_snaps :: "real list" where
  "spec_snaps = map (\<lambda>k. 15 * of_nat k) [0 ..< 24]"

text \<open>
  A bound on what the three roundings of \<open>snapDelta\<close> can add to or take from the circular
  distance, for a rounding of relative error \<open>u\<close>.
\<close>

definition snapError :: "real \<Rightarrow> real \<Rightarrow> real" where
  "snapError u angle = u * (3 * \<bar>angle\<bar> + 1665)"

text \<open>The sum of the shoelace formula, over the points \<open>i\<close> and \<open>(i + 1) % length\<close>.\<close>

definition shoelace :: "point list \<Rightarrow> real" where
  "shoelace ps =
     (\<Sum>i \<leftarrow> [0 ..< length ps].
        fst (ps ! i) * snd (ps ! ((i + 1) mod length ps))
        - fst (ps ! ((i + 1) mod length ps)) * snd (ps ! i))"

definition polygonArea :: "point list \<Rightarrow> real" where
  "polygonArea ps = (if length ps < 3 then 0 else \<bar>shoelace ps\<bar> / 2)"

definition polygonAreaWithHoles :: "point list \<Rightarrow> point list list \<Rightarrow> real" where
  "polygonAreaWithHoles ps hs =
     (let outer = polygonArea ps;
          holeArea = foldl (\<lambda>acc hole. acc + polygonArea hole) 0 hs
      in max 0 (outer - holeArea))"

definition ellipseToRect :: "ellipse_shape \<Rightarrow> rect_shape" where
  "ellipseToRect e = mkRect (ell_cx e - ell_rx e) (ell_cy e - ell_ry e) (ell_rx e * 2) (ell_ry e * 2)"


section \<open>Identity and naming (domain/naming.ts)\<close>

definition digitChars :: string where
  "digitChars = ''0123456789''"

definition isDigit :: "char \<Rightarrow> bool" where
  "isDigit c = (c \<in> set digitChars)"

text \<open>The decimal numeral of a number, as a template literal prints it.\<close>

function showNat :: "nat \<Rightarrow> string" where
  "showNat n = (if n < 10 then [digitChars ! n] else showNat (n div 10) @ [digitChars ! (n mod 10)])"
  by pat_completeness auto
termination
  by (relation "measure (\<lambda>n. n)") auto

definition digitVal :: "char \<Rightarrow> nat" where
  "digitVal c = of_char c - of_char CHR ''0''"

text \<open>\<open>parseInt(ds, 10)\<close> on a string of decimal digits.\<close>

definition parseNat :: "string \<Rightarrow> nat" where
  "parseNat ds = foldl (\<lambda>acc c. 10 * acc + digitVal c) 0 ds"

text \<open>\<open>name.match(/(\d+)/)\<close>: the leftmost maximal run of digits, if there is one.\<close>

definition firstDigits :: "string \<Rightarrow> string option" where
  "firstDigits s =
     (let rest = dropWhile (\<lambda>c. \<not> isDigit c) s
      in if rest = [] then None else Some (takeWhile isDigit rest))"

definition nextAreaIndex :: "plan \<Rightarrow> nat" where
  "nextAreaIndex p =
     foldl (\<lambda>acc a. case firstDigits (area_name a) of
                       None \<Rightarrow> acc
                     | Some ds \<Rightarrow> max acc (parseNat ds)) 0 (areas p) + 1"

definition defaultAreaName :: "plan \<Rightarrow> string" where
  "defaultAreaName p = ''Area '' @ showNat (nextAreaIndex p)"

text \<open>
  The white space that \<open>\s\<close> matches, among the characters of this model (bytes): space,
  tab, line feed, vertical tab, form feed and carriage return.
\<close>

definition isSpace :: "char \<Rightarrow> bool" where
  "isSpace c = (of_char c \<in> {9, 10, 11, 12, 13, 32 :: nat})"

definition suffixes :: string where
  "suffixes = ''ABCDEFGHIJKLMNOPQRSTUVWXYZ''"

definition partitionNames :: "string \<Rightarrow> int \<Rightarrow> string list" where
  "partitionNames base count =
     (if count \<le> 1 then [base]
      else
        (let baseTrimmed = rev (dropWhile isSpace (rev base))
         in map (\<lambda>idx. baseTrimmed @ '' '' @
                         (if idx < length suffixes then [suffixes ! idx] else showNat (idx + 1)))
                [0 ..< nat count]))"

definition findArea :: "plan \<Rightarrow> string \<Rightarrow> area option" where
  "findArea p i = find (\<lambda>a. area_id a = i) (areas p)"

section \<open>Grouping (domain/grouping.ts, in src/unnamed/part_000)\<close>

text \<open>The identifier that \<open>crypto.randomUUID()\<close> returns is a parameter.\<close>

definition groupsOf :: "plan \<Rightarrow> area_group list" where
  "groupsOf p = (case areaGroups p of None \<Rightarrow> [] | Some gs \<Rightarrow> gs)"

definition addGroup :: "string \<Rightarrow> plan \<Rightarrow> string \<Rightarrow> string list \<Rightarrow> plan" where
  "addGroup newId p name ids =
     (let g = \<lparr>group_id = newId, group_name = name, areaIds = ids,
               locked = None, visible = Some True\<rparr>
      in p\<lparr>areaGroups := Some (groupsOf p @ [g])\<rparr>)"

definition toggleGroupVisibility :: "plan \<Rightarrow> string \<Rightarrow> bool \<Rightarrow> plan" where
  "toggleGroupVisibility p i v =
     p\<lparr>areaGroups := Some (map (\<lambda>g. if group_id g = i then g\<lparr>visible := Some v\<rparr> else g) (groupsOf p))\<rparr>"

definition deleteGroup :: "plan \<Rightarrow> string \<Rightarrow> plan" where
  "deleteGroup p i = p\<lparr>areaGroups := Some (filter (\<lambda>g. group_id g \<noteq> i) (groupsOf p))\<rparr>"


section \<open>Command interpreter (domain/commands.ts)\<close>

text \<open>
  The source holds two revisions of the interpreter. The model follows the later one,
  which has the ellipses, the holes, \<open>area/mirror\<close> and \<open>area/subtract\<close> that the
  spec describes.

  The interpreter reads the clock (\<open>now()\<close>), draws identifiers
  (\<open>crypto.randomUUID()\<close>) and calls the polygon-clipping library, which is not part of
  the repository. They are the environment of one command: \<open>clock k\<close> is the \<open>k\<close>-th
  reading of the clock during the command, \<open>uuid k\<close> the \<open>k\<close>-th identifier drawn,
  \<open>pc_union\<close> takes the polygons passed to \<open>polygonClipping.union\<close>, and
  \<open>pc_difference\<close> the subject and the clip polygons of \<open>polygonClipping.difference\<close>.
\<close>

type_synonym ring = "point list"

record env =
  clock :: "nat \<Rightarrow> string"
  uuid :: "nat \<Rightarrow> string"
  pc_union :: "ring list list \<Rightarrow> ring list list"
  pc_difference :: "ring list list \<Rightarrow> ring list list \<Rightarrow> ring list list"

record create_payload =
  cp_rect :: rect_shape
  cp_partitions :: "int option"
  cp_direction :: "partition_direction option"
  cp_fill :: "string option"
  cp_stroke :: "string option"
  cp_name :: "string option"
  cp_parentId :: "string option"

record style_payload =
  sp_fill :: "string option"
  sp_stroke :: "string option"
  sp_name :: "string option"

text \<open>
  One constructor for each command type, with the fields of its payload in the order of
  the type \<open>CommandPayloads\<close>; \<open>style_payload\<close> holds the optional \<open>fill\<close>,
  \<open>stroke\<close> and \<open>name\<close>.
\<close>

datatype command =
    PlanCreate real real units "string option"
  | PlanResizeBoundary "real option" "real option"
  | PlanSetViewport "real option" "point option"
  | PlanLoad plan
  | AreaCreate create_payload
  | AreaCreatePolygon "point list" style_payload
  | AreaCreateEllipse ellipse_shape style_payload
  | AreaPaste "area list" real real "string option"
  | AreaMove string real real
  | AreaMovePolygon string real real
  | AreaResize string rect_handle real real
  | AreaSetRect string rect_shape
  | AreaSetEllipse string ellipse_shape
  | AreaSetRectBatch "(string \<times> rect_shape) list"
  | AreaSetPolygon string "point list"
  | AreaSetMultiPolygon string "point list list"
  | AreaMoveMulti "string list" real real
  | AreaRename string string
  | AreaRecolor string string
  | AreaDelete string
  | AreaMirror string mirror_axis
  | AreaSubtract "string list"
  | AreaDivide string int "partition_direction option"
  | AreaMerge "string list" style_payload
  | GroupCreate string "string list"
  | GroupDelete string
  | GroupVisibility string bool
  | AreaConvertToPolygon "string list" style_payload
  | AreaSetLabelOffset string point
  | AreaSetEdgeLabelOffset string string point
  | AreaSetRadiusLabelOffset string point
  | SelectionSet selection

fun command_type :: "command \<Rightarrow> string" where
  "command_type (PlanCreate _ _ _ _) = ''plan/create''"
| "command_type (PlanResizeBoundary _ _) = ''plan/resize-boundary''"
| "command_type (PlanSetViewport _ _) = ''plan/set-viewport''"
| "command_type (PlanLoad _) = ''plan/load''"
| "command_type (AreaCreate _) = ''area/create''"
| "command_type (AreaCreatePolygon _ _) = ''area/create-polygon''"
| "command_type (AreaCreateEllipse _ _) = ''area/create-ellipse''"
| "command_type (AreaPaste _ _ _ _) = ''area/paste''"
| "command_type (AreaMove _ _ _) = ''area/move''"
| "command_type (AreaMovePolygon _ _ _) = ''area/move-polygon''"
| "command_type (AreaResize _ _ _ _) = ''area/resize''"
| "command_type (AreaSetRect _ _) = ''area/set-rect''"
| "command_type (AreaSetEllipse _ _) = ''area/set-ellipse''"
| "command_type (AreaSetRectBatch _) = ''area/set-rect-batch''"
| "command_type (AreaSetPolygon _ _) = ''area/set-polygon''"
| "command_type (AreaSetMultiPolygon _ _) = ''area/set-multipolygon''"
| "command_type (AreaMoveMulti _ _ _) = ''area/move-multi''"
| "command_type (AreaRename _ _) = ''area/rename''"
| "command_type (AreaRecolor _ _) = ''area/recolor''"
| "command_type (AreaDelete _) = ''area/delete''"
| "command_type (AreaMirror _ _) = ''area/mirror''"
| "command_type (AreaSubtract _) = ''area/subtract''"
| "command_type (AreaDivide _ _ _) = ''area/divide''"
| "command_type (AreaMerge _ _) = ''area/merge''"
| "command_type (GroupCreate _ _) = ''group/create''"
| "command_type (GroupDelete _) = ''group/delete''"
| "command_type (GroupVisibility _ _) = ''group/visibility''"
| "command_type (AreaConvertToPolygon _ _) = ''area/convert-to-polygon''"
| "command_type (AreaSetLabelOffset _ _) = ''area/set-label-offset''"
| "command_type (AreaSetEdgeLabelOffset _ _ _) = ''area/set-edge-label-offset''"
| "command_type (AreaSetRadiusLabelOffset _ _) = ''area/set-radius-label-offset''"
| "command_type (SelectionSet _) = ''selection/set''"

record command_result =
  res_plan :: plan
  res_selection :: "selection option"
  res_description :: "string option"

text \<open>\<open>return { plan }\<close>: the plan that was passed in, no selection, no description.\<close>

definition unchanged :: "plan \<Rightarrow> command_result" where
  "unchanged p = \<lparr>res_plan = p, res_selection = None, res_description = None\<rparr>"

definition result :: "plan \<Rightarrow> selection option \<Rightarrow> string \<Rightarrow> command_result" where
  "result p sel d = \<lparr>res_plan = p, res_selection = sel, res_description = Some d\<rparr>"

text \<open>\<open>structuredClone\<close> copies the value: on values it is the identity.\<close>

definition clonePlan :: "plan \<Rightarrow> plan" where
  "clonePlan p = p"

definition ensureUpdated :: "env \<Rightarrow> plan \<Rightarrow> plan" where
  "ensureUpdated ev p = p\<lparr>meta := (meta p)\<lparr>updatedAt := clock ev 0\<rparr>\<rparr>"

text \<open>
  \<open>findArea(next, id)\<close> returns a reference into \<open>next.areas\<close>; assigning to a field of
  it changes the first area with that identifier.
\<close>

fun modifyFirst :: "string \<Rightarrow> (area \<Rightarrow> area) \<Rightarrow> area list \<Rightarrow> area list" where
  "modifyFirst i f [] = []"
| "modifyFirst i f (a # rest) = (if area_id a = i then f a # rest else a # modifyFirst i f rest)"

definition setShape :: "string \<Rightarrow> shape \<Rightarrow> plan \<Rightarrow> plan" where
  "setShape i s p = p\<lparr>areas := modifyFirst i (\<lambda>a. a\<lparr>shape := s\<rparr>) (areas p)\<rparr>"

definition orElse :: "'a option \<Rightarrow> 'a \<Rightarrow> 'a" where
  "orElse v d = (case v of None \<Rightarrow> d | Some w \<Rightarrow> w)"

definition closeRing :: "point list \<Rightarrow> ring" where
  "closeRing ps = (if ps \<noteq> [] \<and> hd ps \<noteq> last ps then ps @ [hd ps] else ps)"

text \<open>The 48 points sampled on an ellipse.\<close>

definition ellipsePoints :: "real \<Rightarrow> real \<Rightarrow> real \<Rightarrow> real \<Rightarrow> point list" where
  "ellipsePoints cx0 cy0 rx0 ry0 =
     map (\<lambda>i. let angle = (of_nat i / 48) * pi * 2
               in (cx0 + cos angle * rx0, cy0 + sin angle * ry0)) [0 ..< 48]"

text \<open>\<open>holes?.[idx] ?? []\<close>\<close>

definition holesAt :: "point list list list option \<Rightarrow> nat \<Rightarrow> point list list" where
  "holesAt hs idx =
     (case hs of None \<Rightarrow> [] | Some l \<Rightarrow> if idx < length l then l ! idx else [])"

definition shapeToPolygons :: "shape \<Rightarrow> ring list list" where
  "shapeToPolygons s =
     (case s of
        Rect r \<Rightarrow>
          (let x0 = rect_x r; y0 = rect_y r; w0 = rect_width r; h0 = rect_height r
           in [[[(x0, y0), (x0 + w0, y0), (x0 + w0, y0 + h0), (x0, y0 + h0), (x0, y0)]]])
      | Ellipse e \<Rightarrow> [[closeRing (ellipsePoints (ell_cx e) (ell_cy e) (ell_rx e) (ell_ry e))]]
      | Polygon pg \<Rightarrow> [closeRing (poly_points pg) # map closeRing (orElse (poly_holes pg) [])]
      | MultiPolygon m \<Rightarrow>
          map (\<lambda>idx. closeRing (mp_polygons m ! idx) # map closeRing (holesAt (mp_holes m) idx))
              [0 ..< length (mp_polygons m)])"

definition ringsToPoints :: "ring \<Rightarrow> point list" where
  "ringsToPoints rg = (if length rg > 1 \<and> hd rg = last rg then butlast rg else rg)"

definition mirrorPoint :: "point \<Rightarrow> mirror_axis \<Rightarrow> point \<Rightarrow> point" where
  "mirrorPoint pt axis center =
     (if axis = MirrorVertical then (fst center * 2 - fst pt, snd pt)
      else (fst pt, snd center * 2 - snd pt))"

definition shapeArea :: "shape \<Rightarrow> real" where
  "shapeArea s =
     (case s of
        Rect r \<Rightarrow> \<bar>rect_width r * rect_height r\<bar>
      | Ellipse e \<Rightarrow> \<bar>pi * ell_rx e * ell_ry e\<bar>
      | Polygon pg \<Rightarrow> polygonAreaWithHoles (poly_points pg) (orElse (poly_holes pg) [])
      | MultiPolygon m \<Rightarrow>
          foldl (\<lambda>acc idx. acc + polygonAreaWithHoles (mp_polygons m ! idx) (holesAt (mp_holes m) idx))
                0 [0 ..< length (mp_polygons m)])"

text \<open>
  What the \<open>forEach\<close> over the result of a boolean operation collects: for each polygon
  whose outer ring has at least 3 entries, its points and the points of its holes.
\<close>

fun collectRings :: "ring list list \<Rightarrow> (point list \<times> point list list) list" where
  "collectRings [] = []"
| "collectRings ([] # rest) = collectRings rest"
| "collectRings ((rg # hs) # rest) =
     (if length rg \<ge> 3 then (ringsToPoints rg, map ringsToPoints hs) # collectRings rest
      else collectRings rest)"

text \<open>The shape built from the collected polygons: a polygon for one, a multipolygon for more.\<close>

definition shapeOfRings :: "(point list \<times> point list list) list \<Rightarrow> shape" where
  "shapeOfRings col =
     (if length col = 1
      then Polygon \<lparr>poly_points = fst (hd col), poly_holes = Some (snd (hd col)), poly_rotation = None\<rparr>
      else MultiPolygon \<lparr>mp_polygons = map fst col, mp_holes = Some (map snd col)\<rparr>)"


text \<open>An area object literal without label offsets.\<close>

definition mkArea ::
  "string \<Rightarrow> string \<Rightarrow> string \<Rightarrow> string \<Rightarrow> real \<Rightarrow> shape \<Rightarrow> string option \<Rightarrow> area" where
  "mkArea i nm fl st sw sh par =
     \<lparr>area_id = i, area_name = nm, fill = fl, stroke = st, strokeWidth = sw, shape = sh,
      parentId = par, labelOffset = None, edgeLabelOffsets = None, radiusLabelOffset = None\<rparr>"

definition updatePlanDimensions :: "env \<Rightarrow> plan \<Rightarrow> real option \<Rightarrow> real option \<Rightarrow> command_result" where
  "updatePlanDimensions ev p w h =
     (let n1 = (case w of None \<Rightarrow> p | Some v \<Rightarrow> p\<lparr>canvas := (canvas p)\<lparr>b_width := max v 0.5\<rparr>\<rparr>);
          n2 = (case h of None \<Rightarrow> n1 | Some v \<Rightarrow> n1\<lparr>canvas := (canvas n1)\<lparr>b_height := max v 0.5\<rparr>\<rparr>)
      in result (ensureUpdated ev n2) None ''Resize plan'')"

definition createPlan :: "env \<Rightarrow> real \<Rightarrow> real \<Rightarrow> units \<Rightarrow> string option \<Rightarrow> command_result" where
  "createPlan ev w h u nm =
     result \<lparr>version = ''1.0'', units = u,
             canvas = \<lparr>b_width = w, b_height = h, zoom = 1, pan = (0, 0)\<rparr>,
             areas = [], areaGroups = None,
             meta = \<lparr>meta_name = orElse nm ''New Plan'', createdAt = clock ev 0, updatedAt = clock ev 1\<rparr>\<rparr>
            (Some []) ''Create plan''"

definition setViewport :: "env \<Rightarrow> plan \<Rightarrow> real option \<Rightarrow> point option \<Rightarrow> command_result" where
  "setViewport ev p z pn =
     (let n1 = (case z of None \<Rightarrow> p | Some v \<Rightarrow> p\<lparr>canvas := (canvas p)\<lparr>zoom := max 0.1 v\<rparr>\<rparr>);
          n2 = (case pn of None \<Rightarrow> n1 | Some v \<Rightarrow> n1\<lparr>canvas := (canvas n1)\<lparr>pan := v\<rparr>\<rparr>)
      in result (ensureUpdated ev n2) None ''Viewport change'')"

text \<open>The rects that \<open>createAreasFromRect\<close> computes: the clamped rect, split.\<close>

definition createRects :: "plan \<Rightarrow> create_payload \<Rightarrow> rect_shape list" where
  "createRects p payload =
     (let partitions = max 1 (orElse (cp_partitions payload) 1);
          direction = orElse (cp_direction payload)
                        (if rect_width (cp_rect payload) \<ge> rect_height (cp_rect payload)
                         then Vertical else Horizontal)
      in splitRectEvenly (constrainRectToBounds (cp_rect payload) (canvas p) MIN_SIZE)
           partitions direction)"

definition createAreasFromRect :: "env \<Rightarrow> plan \<Rightarrow> create_payload \<Rightarrow> string \<Rightarrow> command_result" where
  "createAreasFromRect ev p payload baseName =
     (let partitions = max 1 (orElse (cp_partitions payload) 1);
          rects = createRects p payload;
          names = partitionNames baseName partitions;
          created = map (\<lambda>idx. mkArea (uuid ev idx)
                                  (if idx < length names then names ! idx
                                   else baseName @ '' '' @ showNat (idx + 1))
                                  (orElse (cp_fill payload) ''#bfdbfe'')
                                  (orElse (cp_stroke payload) ''#1d4ed8'')
                                  0.04 (Rect (rects ! idx)) (cp_parentId payload))
                        [0 ..< length rects]
      in result (ensureUpdated ev (p\<lparr>areas := areas p @ created\<rparr>))
           (Some (map area_id created)) ''Create area'')"

definition createArea :: "env \<Rightarrow> plan \<Rightarrow> create_payload \<Rightarrow> command_result" where
  "createArea ev p payload =
     createAreasFromRect ev p payload (orElse (cp_name payload) (defaultAreaName p))"

definition createPolygon :: "env \<Rightarrow> plan \<Rightarrow> point list \<Rightarrow> style_payload \<Rightarrow> command_result" where
  "createPolygon ev p pts payload =
     (if length pts < 3 then unchanged p
      else
        (let a = mkArea (uuid ev 0) (orElse (sp_name payload) (defaultAreaName p))
                   (orElse (sp_fill payload) ''#d8b4fe'') (orElse (sp_stroke payload) ''#6b21a8'')
                   0.04
                   (Polygon \<lparr>poly_points = pts, poly_holes = None, poly_rotation = None\<rparr>) None
         in result (ensureUpdated ev (p\<lparr>areas := areas p @ [a]\<rparr>))
              (Some [uuid ev 0]) ''Create polygon''))"

definition createEllipse :: "env \<Rightarrow> plan \<Rightarrow> ellipse_shape \<Rightarrow> style_payload \<Rightarrow> command_result" where
  "createEllipse ev p e payload =
     (let a = mkArea (uuid ev 0) (orElse (sp_name payload) (defaultAreaName p))
                (orElse (sp_fill payload) ''#fecaca'') (orElse (sp_stroke payload) ''#dc2626'')
                0.04
                (Ellipse \<lparr>ell_cx = ell_cx e, ell_cy = ell_cy e, ell_rx = ell_rx e, ell_ry = ell_ry e\<rparr>)
                None
      in result (ensureUpdated ev (p\<lparr>areas := areas p @ [a]\<rparr>))
           (Some [uuid ev 0]) ''Create ellipse'')"

text \<open>
  The shape of a pasted area, or \<open>None\<close> where the loop body returns early (a polygon
  with fewer than 3 points).
\<close>

definition pasteShape :: "canvas \<Rightarrow> real \<Rightarrow> real \<Rightarrow> shape \<Rightarrow> shape option" where
  "pasteShape cv dx dy s =
     (let shift = (\<lambda>pt. (fst pt + dx, snd pt + dy))
      in case s of
           Rect r \<Rightarrow>
             Some (Rect (constrainRectToBounds (r\<lparr>rect_x := rect_x r + dx, rect_y := rect_y r + dy\<rparr>)
                           cv MIN_SIZE))
         | Ellipse e \<Rightarrow> Some (Ellipse (e\<lparr>ell_cx := ell_cx e + dx, ell_cy := ell_cy e + dy\<rparr>))
         | Polygon pg \<Rightarrow>
             (let pts = map shift (poly_points pg)
              in if length pts < 3 then None
                 else Some (Polygon \<lparr>poly_points = pts,
                                     poly_holes = map_option (map (map shift)) (poly_holes pg),
                                     poly_rotation = None\<rparr>))
         | MultiPolygon m \<Rightarrow>
             (let polys = map (map shift) (mp_polygons m);
                  hs = map_option (map (map (map shift))) (mp_holes m)
              in if polys = [] \<or> list_ex (\<lambda>poly. length poly < 3) polys then None
                 else Some (MultiPolygon \<lparr>mp_polygons = polys, mp_holes = hs\<rparr>)))"

definition pasteStep ::
  "env \<Rightarrow> canvas \<Rightarrow> real \<Rightarrow> real \<Rightarrow> string option \<Rightarrow> area list \<Rightarrow> area \<Rightarrow> area list" where
  "pasteStep ev cv dx dy nameSuffix created a =
     (case pasteShape cv dx dy (shape a) of
        None \<Rightarrow> created
      | Some s \<Rightarrow>
          created @
          [\<lparr>area_id = uuid ev (length created),
            area_name = (case nameSuffix of
                           None \<Rightarrow> area_name a
                         | Some sfx \<Rightarrow> if sfx = [] then area_name a else area_name a @ '' '' @ sfx),
            fill = fill a, stroke = stroke a, strokeWidth = strokeWidth a, shape = s,
            parentId = None, labelOffset = labelOffset a,
            edgeLabelOffsets = edgeLabelOffsets a, radiusLabelOffset = radiusLabelOffset a\<rparr>])"

definition pasteAreas ::
  "env \<Rightarrow> plan \<Rightarrow> area list \<Rightarrow> real \<Rightarrow> real \<Rightarrow> string option \<Rightarrow> command_result" where
  "pasteAreas ev p src dx dy nameSuffix =
     (let created = foldl (pasteStep ev (canvas p) dx dy nameSuffix) [] src
      in if created = [] then unchanged p
         else result (ensureUpdated ev (p\<lparr>areas := areas p @ created\<rparr>))
                (Some (map area_id created)) ''Paste areas'')"

definition moveArea :: "env \<Rightarrow> plan \<Rightarrow> string \<Rightarrow> real \<Rightarrow> real \<Rightarrow> command_result" where
  "moveArea ev p i dx dy =
     (case findArea p i of
        None \<Rightarrow> unchanged p
      | Some a \<Rightarrow>
          (case shape a of
             Rect r \<Rightarrow>
               result (ensureUpdated ev (setShape i (Rect (moveRect r (dx, dy) (canvas p))) p))
                 (Some [i]) ''Move area''
           | _ \<Rightarrow> unchanged p))"

definition movedShape :: "real \<Rightarrow> real \<Rightarrow> shape \<Rightarrow> shape option" where
  "movedShape dx dy s =
     (case s of
        Polygon pg \<Rightarrow>
          Some (Polygon (pg\<lparr>poly_points := translatePolygon (poly_points pg) (dx, dy),
                            poly_holes := map_option (map (\<lambda>hole. translatePolygon hole (dx, dy)))
                                            (poly_holes pg)\<rparr>))
      | MultiPolygon m \<Rightarrow>
          Some (MultiPolygon
                  (m\<lparr>mp_polygons := map (\<lambda>poly. translatePolygon poly (dx, dy)) (mp_polygons m),
                     mp_holes := map_option (map (map (\<lambda>hole. translatePolygon hole (dx, dy))))
                                   (mp_holes m)\<rparr>))
      | _ \<Rightarrow> None)"

definition movePolygonArea :: "env \<Rightarrow> plan \<Rightarrow> string \<Rightarrow> real \<Rightarrow> real \<Rightarrow> command_result" where
  "movePolygonArea ev p i dx dy =
     (case findArea p i of
        None \<Rightarrow> unchanged p
      | Some a \<Rightarrow>
          (case movedShape dx dy (shape a) of
             None \<Rightarrow> unchanged p
           | Some s \<Rightarrow> result (ensureUpdated ev (setShape i s p)) (Some [i]) ''Move polygon''))"

definition resizeArea ::
  "env \<Rightarrow> plan \<Rightarrow> string \<Rightarrow> rect_handle \<Rightarrow> real \<Rightarrow> real \<Rightarrow> command_result" where
  "resizeArea ev p i h dx dy =
     (case findArea p i of
        None \<Rightarrow> unchanged p
      | Some a \<Rightarrow>
          (case shape a of
             Rect r \<Rightarrow>
               result (ensureUpdated ev
                         (setShape i (Rect (applyRectResize r h (dx, dy) (canvas p) MIN_SIZE)) p))
                 (Some [i]) ''Resize area''
           | _ \<Rightarrow> unchanged p))"

definition setAreaRect :: "env \<Rightarrow> plan \<Rightarrow> string \<Rightarrow> rect_shape \<Rightarrow> command_result" where
  "setAreaRect ev p i r =
     (case findArea p i of
        None \<Rightarrow> unchanged p
      | Some a \<Rightarrow>
          (case shape a of
             Rect _ \<Rightarrow>
               result (ensureUpdated ev
                         (setShape i (Rect (constrainRectToBounds r (canvas p) MIN_SIZE)) p))
                 (Some [i]) ''Update area''
           | _ \<Rightarrow> unchanged p))"


definition setPolygon :: "env \<Rightarrow> plan \<Rightarrow> string \<Rightarrow> point list \<Rightarrow> command_result" where
  "setPolygon ev p i pts =
     (case findArea p i of
        None \<Rightarrow> unchanged p
      | Some a \<Rightarrow>
          (case shape a of
             Polygon pg \<Rightarrow>
               result (ensureUpdated ev
                         (setShape i (Polygon \<lparr>poly_points = pts, poly_holes = poly_holes pg,
                                               poly_rotation = None\<rparr>) p))
                 (Some [i]) ''Edit polygon''
           | Rect _ \<Rightarrow>
               result (ensureUpdated ev
                         (setShape i (Polygon \<lparr>poly_points = pts, poly_holes = None,
                                               poly_rotation = None\<rparr>) p))
                 (Some [i]) ''Edit polygon''
           | _ \<Rightarrow> unchanged p))"

definition setEllipse :: "env \<Rightarrow> plan \<Rightarrow> string \<Rightarrow> ellipse_shape \<Rightarrow> command_result" where
  "setEllipse ev p i e =
     (case findArea p i of
        None \<Rightarrow> unchanged p
      | Some a \<Rightarrow>
          (case shape a of
             Ellipse _ \<Rightarrow> result (ensureUpdated ev (setShape i (Ellipse e) p)) (Some [i]) ''Edit ellipse''
           | _ \<Rightarrow> unchanged p))"

definition setMultiPolygon :: "env \<Rightarrow> plan \<Rightarrow> string \<Rightarrow> point list list \<Rightarrow> command_result" where
  "setMultiPolygon ev p i polys =
     (case findArea p i of
        None \<Rightarrow> unchanged p
      | Some a \<Rightarrow>
          (case shape a of
             MultiPolygon m \<Rightarrow>
               result (ensureUpdated ev (setShape i (MultiPolygon (m\<lparr>mp_polygons := polys\<rparr>)) p))
                 (Some [i]) ''Edit multipolygon''
           | _ \<Rightarrow> unchanged p))"

definition isRectArea :: "plan \<Rightarrow> string \<Rightarrow> bool" where
  "isRectArea p i =
     (case findArea p i of
        None \<Rightarrow> False
      | Some a \<Rightarrow> (case shape a of Rect _ \<Rightarrow> True | _ \<Rightarrow> False))"

definition setAreaRectBatch :: "env \<Rightarrow> plan \<Rightarrow> (string \<times> rect_shape) list \<Rightarrow> command_result" where
  "setAreaRectBatch ev p updates =
     (let validUpdates = filter (\<lambda>u. isRectArea p (fst u)) updates;
          n = foldl (\<lambda>q u. if isRectArea q (fst u)
                            then setShape (fst u)
                                   (Rect (constrainRectToBounds (snd u) (canvas q) MIN_SIZE)) q
                            else q)
                p validUpdates
      in result (ensureUpdated ev n) (Some (map fst validUpdates)) ''Update areas'')"

definition renameArea :: "env \<Rightarrow> plan \<Rightarrow> string \<Rightarrow> string \<Rightarrow> command_result" where
  "renameArea ev p i nm =
     (case findArea p i of
        None \<Rightarrow> unchanged p
      | Some _ \<Rightarrow>
          result (ensureUpdated ev (p\<lparr>areas := modifyFirst i (\<lambda>a. a\<lparr>area_name := nm\<rparr>) (areas p)\<rparr>))
            (Some [i]) ''Rename area'')"

definition recolorArea :: "env \<Rightarrow> plan \<Rightarrow> string \<Rightarrow> string \<Rightarrow> command_result" where
  "recolorArea ev p i fl =
     (case findArea p i of
        None \<Rightarrow> unchanged p
      | Some _ \<Rightarrow>
          result (ensureUpdated ev (p\<lparr>areas := modifyFirst i (\<lambda>a. a\<lparr>fill := fl\<rparr>) (areas p)\<rparr>))
            (Some [i]) ''Recolor area'')"

definition mirroredShape :: "mirror_axis \<Rightarrow> shape \<Rightarrow> shape" where
  "mirroredShape axis s =
     (let bbox = shapeBoundingBox s;
          center = (rect_x bbox + rect_width bbox / 2, rect_y bbox + rect_height bbox / 2);
          mir = (\<lambda>pt. mirrorPoint pt axis center)
      in case s of
           Polygon pg \<Rightarrow>
             Polygon (pg\<lparr>poly_points := map mir (poly_points pg),
                         poly_holes := map_option (map (map mir)) (poly_holes pg)\<rparr>)
         | MultiPolygon m \<Rightarrow>
             MultiPolygon (m\<lparr>mp_polygons := map (map mir) (mp_polygons m),
                              mp_holes := map_option (map (map (map mir))) (mp_holes m)\<rparr>)
         | Rect r \<Rightarrow> Rect r
         | Ellipse e \<Rightarrow> Ellipse e)"

definition mirrorArea :: "env \<Rightarrow> plan \<Rightarrow> string \<Rightarrow> mirror_axis \<Rightarrow> command_result" where
  "mirrorArea ev p i axis =
     (case findArea p i of
        None \<Rightarrow> unchanged p
      | Some a \<Rightarrow>
          result (ensureUpdated ev (setShape i (mirroredShape axis (shape a)) p))
            (Some [i]) ''Mirror area'')"

definition deleteArea :: "env \<Rightarrow> plan \<Rightarrow> string \<Rightarrow> command_result" where
  "deleteArea ev p i =
     result (ensureUpdated ev (p\<lparr>areas := filter (\<lambda>a. area_id a \<noteq> i) (areas p)\<rparr>))
       (Some []) ''Delete area''"

text \<open>\<open>payload.ids.map((id) => findArea(next, id)).filter(Boolean)\<close>\<close>

definition resolveTargets :: "plan \<Rightarrow> string list \<Rightarrow> area list" where
  "resolveTargets p ids = List.map_filter (findArea p) ids"

text \<open>\<open>targets.reduce(...)\<close> without an initial value, on a non-empty list.\<close>

definition largestArea :: "area list \<Rightarrow> area" where
  "largestArea targets =
     foldl (\<lambda>largest a. if shapeArea (shape a) > shapeArea (shape largest) then a else largest)
       (hd targets) (tl targets)"

definition subtractAreas :: "env \<Rightarrow> plan \<Rightarrow> string list \<Rightarrow> command_result" where
  "subtractAreas ev p ids =
     (if length ids < 2 then unchanged p
      else
        (let targets = resolveTargets p ids
         in if length targets < 2 then unchanged p
            else
              (let base = largestArea targets;
                   cutters = filter (\<lambda>a. area_id a \<noteq> area_id base) targets;
                   subject = shapeToPolygons (shape base);
                   clips = concat (map (\<lambda>a. shapeToPolygons (shape a)) cutters);
                   col = collectRings (pc_difference ev subject clips)
               in if col = [] then
                    result (ensureUpdated ev
                              (p\<lparr>areas := filter (\<lambda>a. \<not> List.member ids (area_id a)) (areas p)\<rparr>))
                      (Some []) ''Subtract areas''
                  else
                    (let n = p\<lparr>areas := filter (\<lambda>a. area_id a = area_id base \<or>
                                                      \<not> List.member ids (area_id a)) (areas p)\<rparr>
                     in case findArea n (area_id base) of
                          None \<Rightarrow> unchanged p
                        | Some _ \<Rightarrow>
                            result (ensureUpdated ev (setShape (area_id base) (shapeOfRings col) n))
                              (Some [area_id base]) ''Subtract areas''))))"

definition mergeAreas :: "env \<Rightarrow> plan \<Rightarrow> string list \<Rightarrow> style_payload \<Rightarrow> command_result" where
  "mergeAreas ev p ids payload =
     (if length ids < 2 then unchanged p
      else
        (let targets = resolveTargets p ids
         in if length targets < 2 then unchanged p
            else
              (let polygonInputs = concat (map (\<lambda>a. shapeToPolygons (shape a)) targets);
                   col = collectRings (pc_union ev polygonInputs)
               in if col = [] then unchanged p
                  else
                    (let kept = filter (\<lambda>a. \<not> List.member ids (area_id a)) (areas p);
                         a = mkArea (uuid ev 0) (orElse (sp_name payload) ''Area'')
                               (orElse (sp_fill payload) (fill (hd targets)))
                               (orElse (sp_stroke payload) (stroke (hd targets)))
                               (strokeWidth (hd targets)) (shapeOfRings col) None
                     in result (ensureUpdated ev (p\<lparr>areas := kept @ [a]\<rparr>))
                          (Some [uuid ev 0]) ''Merge areas''))))"

text \<open>The outlines that \<open>convertToPolygon\<close> pushes for one target.\<close>

definition outlines :: "shape \<Rightarrow> point list list" where
  "outlines s =
     (case s of
        Rect r \<Rightarrow>
          (let x0 = rect_x r; y0 = rect_y r; w0 = rect_width r; h0 = rect_height r
           in [[(x0, y0), (x0 + w0, y0), (x0 + w0, y0 + h0), (x0, y0 + h0)]])
      | Ellipse e \<Rightarrow>
          (let r = ellipseToRect e
           in [map (\<lambda>i. let angle = (of_nat i / 48) * pi * 2
                         in (rect_x r + rect_width r / 2 + cos angle * rect_width r / 2,
                             rect_y r + rect_height r / 2 + sin angle * rect_height r / 2))
                   [0 ..< 48]])
      | Polygon pg \<Rightarrow> [poly_points pg]
      | MultiPolygon m \<Rightarrow> mp_polygons m)"

definition convertToPolygon :: "env \<Rightarrow> plan \<Rightarrow> string list \<Rightarrow> style_payload \<Rightarrow> command_result" where
  "convertToPolygon ev p ids payload =
     (if length ids < 1 then unchanged p
      else
        (let targets = resolveTargets p ids
         in if targets = [] then unchanged p
            else
              (let polys = concat (map (\<lambda>a. outlines (shape a)) targets)
               in if polys = [] then unchanged p
                  else
                    (let kept = filter (\<lambda>a. \<not> List.member ids (area_id a)) (areas p);
                         a = mkArea (uuid ev 0)
                               (orElse (sp_name payload) (''Polygon '' @ showNat (length targets)))
                               (orElse (sp_fill payload) (fill (hd targets)))
                               (orElse (sp_stroke payload) (stroke (hd targets)))
                               (strokeWidth (hd targets))
                               (if length polys = 1
                                then Polygon \<lparr>poly_points = hd polys, poly_holes = None,
                                              poly_rotation = None\<rparr>
                                else MultiPolygon \<lparr>mp_polygons = polys, mp_holes = None\<rparr>)
                               None
                     in result (ensureUpdated ev (p\<lparr>areas := kept @ [a]\<rparr>))
                          (Some [uuid ev 0]) ''Convert to polygon''))))"

definition createGroup :: "env \<Rightarrow> plan \<Rightarrow> string \<Rightarrow> string list \<Rightarrow> command_result" where
  "createGroup ev p nm ids =
     result (ensureUpdated ev (addGroup (uuid ev 0) p nm ids)) (Some ids) ''Create group''"

definition removeGroup :: "env \<Rightarrow> plan \<Rightarrow> string \<Rightarrow> command_result" where
  "removeGroup ev p i = result (ensureUpdated ev (deleteGroup p i)) None ''Delete group''"

definition setGroupVisibility :: "env \<Rightarrow> plan \<Rightarrow> string \<Rightarrow> bool \<Rightarrow> command_result" where
  "setGroupVisibility ev p i v =
     result (ensureUpdated ev (toggleGroupVisibility p i v)) None ''Toggle group visibility''"


text \<open>The polygon that \<open>divideArea\<close> builds from a slice of the bounding box.\<close>

definition rectPolygon :: "rect_shape \<Rightarrow> shape" where
  "rectPolygon r =
     Polygon \<lparr>poly_points = [(rect_x r, rect_y r), (rect_x r + rect_width r, rect_y r),
                             (rect_x r + rect_width r, rect_y r + rect_height r),
                             (rect_x r, rect_y r + rect_height r)],
              poly_holes = None, poly_rotation = None\<rparr>"

definition divideArea ::
  "env \<Rightarrow> plan \<Rightarrow> string \<Rightarrow> int \<Rightarrow> partition_direction option \<Rightarrow> command_result" where
  "divideArea ev p i parts dir =
     (case findArea p i of
        None \<Rightarrow> unchanged p
      | Some baseArea \<Rightarrow>
          (let partitions = max 2 parts;
               direction = orElse dir
                             (case shape baseArea of
                                Rect r \<Rightarrow> if rect_width r \<ge> rect_height r then Vertical else Horizontal
                              | _ \<Rightarrow> Horizontal);
               kept = filter (\<lambda>a. area_id a \<noteq> i) (areas p);
               names = partitionNames (area_name baseArea) partitions;
               shapes = (case shape baseArea of
                           Rect r \<Rightarrow> map Rect (splitRectEvenly r partitions direction)
                         | other \<Rightarrow>
                             (let bbox = shapeBoundingBox other
                              in map rectPolygon
                                   (splitRectEvenly
                                      (mkRect (rect_x bbox) (rect_y bbox) (rect_width bbox) (rect_height bbox))
                                      partitions direction)));
               created = map (\<lambda>idx. mkArea (uuid ev idx) (names ! idx) (fill baseArea)
                                       (stroke baseArea) (strokeWidth baseArea) (shapes ! idx)
                                       (Some (area_id baseArea)))
                             [0 ..< length shapes]
           in result (ensureUpdated ev (p\<lparr>areas := kept @ created\<rparr>))
                (Some (map area_id created)) ''Divide area''))"

definition loadPlan :: "plan \<Rightarrow> command_result" where
  "loadPlan loaded = result loaded (Some []) ''Load plan''"

definition setSelection :: "plan \<Rightarrow> selection \<Rightarrow> command_result" where
  "setSelection p sel = result p (Some sel) ''Select''"

text \<open>The body of the \<open>forEach\<close> of \<open>moveMany\<close>, for one identifier.\<close>

definition moveOne :: "real \<Rightarrow> real \<Rightarrow> plan \<Rightarrow> string \<Rightarrow> plan" where
  "moveOne dx dy q i =
     (case findArea q i of
        None \<Rightarrow> q
      | Some a \<Rightarrow>
          (case shape a of
             Rect r \<Rightarrow> setShape i (Rect (moveRect r (dx, dy) (canvas q))) q
           | Ellipse e \<Rightarrow> setShape i (Ellipse (e\<lparr>ell_cx := ell_cx e + dx, ell_cy := ell_cy e + dy\<rparr>)) q
           | other \<Rightarrow> setShape i (orElse (movedShape dx dy other) other) q))"

definition moveMany :: "env \<Rightarrow> plan \<Rightarrow> string list \<Rightarrow> real \<Rightarrow> real \<Rightarrow> command_result" where
  "moveMany ev p ids dx dy =
     result (ensureUpdated ev (foldl (moveOne dx dy) p ids)) (Some ids) ''Move areas''"

definition setAreaLabelOffset :: "env \<Rightarrow> plan \<Rightarrow> string \<Rightarrow> point \<Rightarrow> command_result" where
  "setAreaLabelOffset ev p i off =
     (case findArea p i of
        None \<Rightarrow> unchanged p
      | Some _ \<Rightarrow>
          result (ensureUpdated ev
                    (p\<lparr>areas := modifyFirst i (\<lambda>a. a\<lparr>labelOffset := Some off\<rparr>) (areas p)\<rparr>))
            (Some [i]) ''Move area label'')"

definition setEdgeLabelOffset :: "env \<Rightarrow> plan \<Rightarrow> string \<Rightarrow> string \<Rightarrow> point \<Rightarrow> command_result" where
  "setEdgeLabelOffset ev p i edgeKey off =
     (case findArea p i of
        None \<Rightarrow> unchanged p
      | Some _ \<Rightarrow>
          result (ensureUpdated ev
                    (p\<lparr>areas := modifyFirst i
                                   (\<lambda>a. a\<lparr>edgeLabelOffsets :=
                                             Some (AList.update edgeKey off
                                                     (orElse (edgeLabelOffsets a) []))\<rparr>)
                                   (areas p)\<rparr>))
            (Some [i]) ''Move edge label'')"

definition setRadiusLabelOffset :: "env \<Rightarrow> plan \<Rightarrow> string \<Rightarrow> point \<Rightarrow> command_result" where
  "setRadiusLabelOffset ev p i off =
     (case findArea p i of
        None \<Rightarrow> unchanged p
      | Some _ \<Rightarrow>
          result (ensureUpdated ev
                    (p\<lparr>areas := modifyFirst i (\<lambda>a. a\<lparr>radiusLabelOffset := Some off\<rparr>) (areas p)\<rparr>))
            (Some [i]) ''Move radius label'')"

fun performCommand :: "env \<Rightarrow> plan \<Rightarrow> command \<Rightarrow> command_result" where
  "performCommand ev p (PlanCreate w h u nm) = createPlan ev w h u nm"
| "performCommand ev p (PlanResizeBoundary w h) = updatePlanDimensions ev p w h"
| "performCommand ev p (PlanSetViewport z pn) = setViewport ev p z pn"
| "performCommand ev p (PlanLoad loaded) = loadPlan loaded"
| "performCommand ev p (AreaCreate payload) = createArea ev p payload"
| "performCommand ev p (AreaCreatePolygon pts payload) = createPolygon ev p pts payload"
| "performCommand ev p (AreaCreateEllipse e payload) = createEllipse ev p e payload"
| "performCommand ev p (AreaPaste src dx dy sfx) = pasteAreas ev p src dx dy sfx"
| "performCommand ev p (AreaMove i dx dy) = moveArea ev p i dx dy"
| "performCommand ev p (AreaMovePolygon i dx dy) = movePolygonArea ev p i dx dy"
| "performCommand ev p (AreaResize i h dx dy) = resizeArea ev p i h dx dy"
| "performCommand ev p (AreaSetRect i r) = setAreaRect ev p i r"
| "performCommand ev p (AreaSetEllipse i e) = setEllipse ev p i e"
| "performCommand ev p (AreaSetRectBatch updates) = setAreaRectBatch ev p updates"
| "performCommand ev p (AreaSetPolygon i pts) = setPolygon ev p i pts"
| "performCommand ev p (AreaSetMultiPolygon i polys) = setMultiPolygon ev p i polys"
| "performCommand ev p (AreaRename i nm) = renameArea ev p i nm"
| "performCommand ev p (AreaRecolor i fl) = recolorArea ev p i fl"
| "performCommand ev p (AreaDelete i) = deleteArea ev p i"
| "performCommand ev p (AreaMirror i axis) = mirrorArea ev p i axis"
| "performCommand ev p (AreaSubtract ids) = subtractAreas ev p ids"
| "performCommand ev p (AreaDivide i parts dir) = divideArea ev p i parts dir"
| "performCommand ev p (AreaMerge ids payload) = mergeAreas ev p ids payload"
| "performCommand ev p (GroupCreate nm ids) = createGroup ev p nm ids"
| "performCommand ev p (GroupDelete i) = removeGroup ev p i"
| "performCommand ev p (GroupVisibility i v) = setGroupVisibility ev p i v"
| "performCommand ev p (AreaConvertToPolygon ids payload) = convertToPolygon ev p ids payload"
| "performCommand ev p (AreaMoveMulti ids dx dy) = moveMany ev p ids dx dy"
| "performCommand ev p (AreaSetLabelOffset i off) = setAreaLabelOffset ev p i off"
| "performCommand ev p (AreaSetEdgeLabelOffset i k off) = setEdgeLabelOffset ev p i k off"
| "performCommand ev p (AreaSetRadiusLabelOffset i off) = setRadiusLabelOffset ev p i off"
| "performCommand ev p (SelectionSet sel) = setSelection p sel"

section \<open>History manager (store/usePlanStore.ts)\<close>

datatype tool = Select | DrawRect | DrawPolygon | Divide | Pan | Fill | Label | Delete

record command_record =
  rec_command :: command
  rec_description :: string
  rec_before :: plan
  rec_after :: plan
  rec_timestamp :: nat

record history_stack =
  h_undo :: "command_record list"
  h_redo :: "command_record list"

record store =
  st_plan :: plan
  st_selection :: selection
  st_history :: history_stack
  activeTool :: tool
  paletteColor :: string
  snapEnabled :: bool
  showDimensions :: bool
  showGrid :: bool

text \<open>\<open>xs.slice(-n)\<close>: the last \<open>n\<close> elements, or all of them when there are fewer.\<close>

definition sliceLast :: "nat \<Rightarrow> 'a list \<Rightarrow> 'a list" where
  "sliceLast n xs = drop (length xs - n) xs"

definition pushHistory :: "history_stack \<Rightarrow> command_record \<Rightarrow> history_stack" where
  "pushHistory h r = \<lparr>h_undo = sliceLast 100 (h_undo h @ [r]), h_redo = []\<rparr>"

text \<open>
  One call of the store's \<open>apply\<close>, with what it reads from outside: the environment of
  the command and the reading of \<open>Date.now()\<close>. The test
  \<open>JSON.stringify(before) !== JSON.stringify(after)\<close> is modelled as inequality of the
  plans.
\<close>

type_synonym event = "env \<times> nat \<times> command"

definition changed :: "store \<Rightarrow> event \<Rightarrow> bool" where
  "changed st e =
     (clonePlan (st_plan st) \<noteq> res_plan (performCommand (fst e) (st_plan st) (snd (snd e))))"

text \<open>The record that \<open>apply\<close> builds when the plan has changed.\<close>

definition recordOf :: "store \<Rightarrow> event \<Rightarrow> command_record" where
  "recordOf st e =
     (let res = performCommand (fst e) (st_plan st) (snd (snd e))
      in \<lparr>rec_command = snd (snd e),
          rec_description = orElse (res_description res) (command_type (snd (snd e))),
          rec_before = clonePlan (st_plan st),
          rec_after = clonePlan (res_plan res),
          rec_timestamp = fst (snd e)\<rparr>)"

definition store_apply :: "store \<Rightarrow> event \<Rightarrow> store" where
  "store_apply st e =
     (let res = performCommand (fst e) (st_plan st) (snd (snd e))
      in if \<not> changed st e
         then (case res_selection res of None \<Rightarrow> st | Some sel \<Rightarrow> st\<lparr>st_selection := sel\<rparr>)
         else st\<lparr>st_plan := res_plan res,
                 st_selection := orElse (res_selection res) (st_selection st),
                 st_history := pushHistory (st_history st) (recordOf st e)\<rparr>)"

definition store_undo :: "store \<Rightarrow> store" where
  "store_undo st =
     (let u = h_undo (st_history st)
      in if u = [] then st
         else st\<lparr>st_plan := clonePlan (rec_before (last u)),
                 st_selection := [],
                 st_history := \<lparr>h_undo = butlast u, h_redo = last u # h_redo (st_history st)\<rparr>\<rparr>)"

definition store_redo :: "store \<Rightarrow> store" where
  "store_redo st =
     (let r = h_redo (st_history st)
      in if r = [] then st
         else st\<lparr>st_plan := clonePlan (rec_after (hd r)),
                 st_selection := [],
                 st_history := \<lparr>h_undo = h_undo (st_history st) @ [hd r], h_redo = tl r\<rparr>\<rparr>)"

definition store_loadPlan :: "store \<Rightarrow> plan \<Rightarrow> store" where
  "store_loadPlan st p =
     st\<lparr>st_plan := clonePlan p, st_selection := [],
        st_history := \<lparr>h_undo = [], h_redo = []\<rparr>, activeTool := Select\<rparr>"

text \<open>A sequence of calls of \<open>apply\<close>, and the sequences of effective commands.\<close>

definition store_run :: "store \<Rightarrow> event list \<Rightarrow> store" where
  "store_run st es = foldl store_apply st es"

fun all_effective :: "store \<Rightarrow> event list \<Rightarrow> bool" where
  "all_effective st [] = True"
| "all_effective st (e # es) = (changed st e \<and> all_effective (store_apply st e) es)"

text \<open>The records of the commands of a sequence, oldest first.\<close>

fun run_records :: "store \<Rightarrow> event list \<Rightarrow> command_record list" where
  "run_records st [] = []"
| "run_records st (e # es) = recordOf st e # run_records (store_apply st e) es"

section \<open>Import and export (domain/io.ts)\<close>

text \<open>
  The export is \<open>JSON.stringify(plan, null, 2)\<close> and the import is \<open>JSON.parse\<close> followed
  by a test of \<open>parsed.version\<close>. Both work on the plan object as it is at run time, where
  a number can be NaN or an infinity and a property can be present and hold
  \<open>undefined\<close>; the records above cannot tell these apart, so this section has its own
  type of JavaScript values: the plain data that the type declarations of the plan admit
  (no functions, symbols, dates or sparse arrays). An object is the list of its own
  properties in insertion order; a JavaScript object holds a key once.
\<close>

datatype jsvalue =
    JsUndefined
  | JsNull
  | JsBool bool
  | JsNum real
  | JsNaN
  | JsInfinity
  | JsNegInfinity
  | JsString string
  | JsArray "jsvalue list"
  | JsObject "(string \<times> jsvalue) list"

text \<open>
  A JSON text is represented by the tree that it spells. The white space of the
  indentation and the spelling of numbers and strings are not modelled: \<open>JSON.parse\<close>
  reads back the finite number and the string that \<open>JSON.stringify\<close> wrote.
\<close>

datatype json =
    JNull
  | JBool bool
  | JNum real
  | JString string
  | JArray "json list"
  | JObject "(string \<times> json) list"

text \<open>
  \<open>JSON.stringify\<close> (ECMAScript, SerializeJSONProperty): \<open>undefined\<close> has no JSON text
  (\<open>None\<close>); a number that is not finite is written as \<open>null\<close>; an element of an array
  without a text is written as \<open>null\<close>; a property of an object without a text is left
  out.
\<close>

definition orNull :: "json option \<Rightarrow> json" where
  "orNull j = (case j of None \<Rightarrow> JNull | Some t \<Rightarrow> t)"

definition definedProps :: "(string \<times> json option) list \<Rightarrow> (string \<times> json) list" where
  "definedProps kvs = List.map_filter (\<lambda>(k, j). map_option (Pair k) j) kvs"

primrec serializeJson :: "jsvalue \<Rightarrow> json option" where
  "serializeJson JsUndefined = None"
| "serializeJson JsNull = Some JNull"
| "serializeJson (JsBool b) = Some (JBool b)"
| "serializeJson (JsNum r) = Some (JNum r)"
| "serializeJson JsNaN = Some JNull"
| "serializeJson JsInfinity = Some JNull"
| "serializeJson JsNegInfinity = Some JNull"
| "serializeJson (JsString s) = Some (JString s)"
| "serializeJson (JsArray xs) = Some (JArray (map orNull (map serializeJson xs)))"
| "serializeJson (JsObject kvs) =
     Some (JObject (definedProps (map (map_prod id serializeJson) kvs)))"

text \<open>
  \<open>JSON.parse\<close> of a JSON text: the members of an object are defined one after the other,
  a repeated key keeps its first position and takes the last value.
\<close>

definition defineProps :: "(string \<times> jsvalue) list \<Rightarrow> (string \<times> jsvalue) list" where
  "defineProps kvs = foldl (\<lambda>acc (k, v). AList.update k v acc) [] kvs"

primrec reviveJson :: "json \<Rightarrow> jsvalue" where
  "reviveJson JNull = JsNull"
| "reviveJson (JBool b) = JsBool b"
| "reviveJson (JNum r) = JsNum r"
| "reviveJson (JString s) = JsString s"
| "reviveJson (JArray xs) = JsArray (map reviveJson xs)"
| "reviveJson (JObject kvs) = JsObject (defineProps (map (map_prod id reviveJson) kvs))"

text \<open>
  \<open>!v\<close> is false for the truthy values. Reading a property of \<open>undefined\<close> or \<open>null\<close>
  throws (\<open>None\<close>); a value that is not an object, and an object without the property,
  give \<open>undefined\<close>.
\<close>

definition truthy :: "jsvalue \<Rightarrow> bool" where
  "truthy v =
     (case v of
        JsUndefined \<Rightarrow> False
      | JsNull \<Rightarrow> False
      | JsBool b \<Rightarrow> b
      | JsNum r \<Rightarrow> r \<noteq> 0
      | JsNaN \<Rightarrow> False
      | JsString s \<Rightarrow> s \<noteq> []
      | _ \<Rightarrow> True)"

definition propOf :: "jsvalue \<Rightarrow> string \<Rightarrow> jsvalue option" where
  "propOf v k =
     (case v of
        JsUndefined \<Rightarrow> None
      | JsNull \<Rightarrow> None
      | JsObject kvs \<Rightarrow> Some (case map_of kvs k of None \<Rightarrow> JsUndefined | Some x \<Rightarrow> x)
      | _ \<Rightarrow> Some JsUndefined)"

text \<open>
  The exported string is given by the JSON text it holds; \<open>None\<close> is a string that is
  not a JSON text, on which \<open>JSON.parse\<close> throws. The import returns \<open>None\<close> for the
  \<open>null\<close> of the source, also when the \<open>try\<close> block catches an exception.
\<close>

definition exportPlanToJson :: "jsvalue \<Rightarrow> json option" where
  "exportPlanToJson p = serializeJson p"

definition importPlanFromJson :: "json option \<Rightarrow> jsvalue option" where
  "importPlanFromJson txt =
     (case txt of
        None \<Rightarrow> None
      | Some j \<Rightarrow>
          (let parsed = reviveJson j
           in case propOf parsed ''version'' of
                None \<Rightarrow> None
              | Some v \<Rightarrow> if \<not> truthy v then None else Some parsed))"

section \<open>Plan factory (domain/planFactory.ts)\<close>

text \<open>The readings of the clock and the identifiers drawn are parameters.\<close>

definition createBlankPlan :: "string \<Rightarrow> string \<Rightarrow> real \<Rightarrow> real \<Rightarrow> units \<Rightarrow> string \<Rightarrow> plan" where
  "createBlankPlan now1 now2 w h u nm =
     \<lparr>version = ''1.0'', units = u,
      canvas = \<lparr>b_width = w, b_height = h, zoom = 1, pan = (0, 0)\<rparr>,
      areas = [], areaGroups = Some [],
      meta = \<lparr>meta_name = nm, createdAt = now1, updatedAt = now2\<rparr>\<rparr>"

definition seedPlan :: "string \<Rightarrow> string \<Rightarrow> string \<Rightarrow> string \<Rightarrow> string \<Rightarrow> plan" where
  "seedPlan now1 now2 now3 idA idB =
     (let p = createBlankPlan now1 now2 12 9 M ''Demo Floor'';
          areaA = (mkRect 0 0 1 1)\<lparr>rect_x := 1, rect_y := 1, rect_width := 4, rect_height := 3\<rparr>;
          areaB = (mkRect 0 0 1 1)\<lparr>rect_x := 6, rect_y := 2, rect_width := 4.5, rect_height := 4\<rparr>;
          baseName = defaultAreaName p
      in p\<lparr>areas := [mkArea idA baseName ''#bfdbfe'' ''#1d4ed8'' 0.04 (Rect areaA) None,
                      mkArea idB (baseName @ '' B'') ''#fecdd3'' ''#be123c'' 0.04 (Rect areaB) None],
           meta := (meta p)\<lparr>updatedAt := now3\<rparr>\<rparr>)"

text \<open>The initial state of the store, for a given seed plan.\<close>

definition initialStore :: "plan \<Rightarrow> store" where
  "initialStore p =
     \<lparr>st_plan = p, st_selection = [], st_history = \<lparr>h_undo = [], h_redo = []\<rparr>,
      activeTool = Select, paletteColor = ''#f59e0b'', snapEnabled = True,
      showDimensions = True, showGrid = True\<rparr>"

section \<open>Predicates of the spec\<close>

text \<open>
  The overlap test that an earlier revision of the interpreter applied before it placed
  a rect: some other area of the plan is a rect that overlaps the target.
\<close>

definition overlapsAny :: "string option \<Rightarrow> rect_shape \<Rightarrow> plan \<Rightarrow> bool" where
  "overlapsAny i target p =
     list_ex (\<lambda>a. Some (area_id a) \<noteq> i \<and>
                   (case shape a of Rect rb \<Rightarrow> rectsOverlap target rb | _ \<Rightarrow> False))
       (areas p)"








text \<open>
  The subject of a subtraction in the spec's words: a target of largest computed area,
  the first such target in the order of the input.
\<close>

definition isSubject :: "area list \<Rightarrow> area \<Rightarrow> bool" where
  "isSubject targets b =
     list_ex (\<lambda>k. b = targets ! k \<and>
                   list_all (\<lambda>a. shapeArea (shape a) \<le> shapeArea (shape b)) targets \<and>
                   list_all (\<lambda>a. shapeArea (shape a) < shapeArea (shape b)) (take k targets))
       [0 ..< length targets]"

text \<open>The same predicate, with quantifiers over the list.\<close>

definition firstMax :: "area list \<Rightarrow> area \<Rightarrow> bool" where
  "firstMax pre b =
     (\<exists>k < length pre. b = pre ! k \<and>
        (\<forall>a \<in> set pre. shapeArea (shape a) \<le> shapeArea (shape b)) \<and>
        (\<forall>a \<in> set (take k pre). shapeArea (shape a) < shapeArea (shape b)))"

text \<open>
  A value that JSON can carry: no \<open>undefined\<close>, NaN or infinity anywhere in it. That an
  object holds a key once is true of every JavaScript object; it is a condition on the
  lists that represent them.
\<close>

primrec jsonSafe :: "jsvalue \<Rightarrow> bool" where
  "jsonSafe JsUndefined = False"
| "jsonSafe JsNull = True"
| "jsonSafe (JsBool b) = True"
| "jsonSafe (JsNum r) = True"
| "jsonSafe JsNaN = False"
| "jsonSafe JsInfinity = False"
| "jsonSafe JsNegInfinity = False"
| "jsonSafe (JsString s) = True"
| "jsonSafe (JsArray xs) = list_all id (map jsonSafe xs)"
| "jsonSafe (JsObject kvs) =
     (distinct (map fst kvs) \<and> list_all snd (map (map_prod id jsonSafe) kvs))"

section \<open>Example inputs\<close>

text \<open>
  A concrete environment, plan and store on which the theorems below are instantiated.
  In \<open>demoEnv\<close> the boolean operations return their first argument, as the library does
  when the operands do not meet.
\<close>

definition demoEnv :: env where
  "demoEnv = \<lparr>clock = (\<lambda>k. ''2024-05-01T10:00:00.000Z''),
              uuid = (\<lambda>k. ''uuid-'' @ showNat k),
              pc_union = (\<lambda>polys. polys),
              pc_difference = (\<lambda>subject clips. subject)\<rparr>"

definition demoPlan :: plan where
  "demoPlan = seedPlan ''2024-05-01T09:00:00.000Z'' ''2024-05-01T09:00:00.000Z''
                ''2024-05-01T09:00:00.001Z'' ''area-a'' ''area-b''"

definition demoStore :: store where
  "demoStore = initialStore demoPlan"

text \<open>Setting the zoom, and \<open>k\<close> rounds of setting it to 2 and then to 3.\<close>

definition zoomTo :: "real \<Rightarrow> event" where
  "zoomTo z = (demoEnv, 0, PlanSetViewport (Some z) None)"

definition zoomEvents :: "nat \<Rightarrow> event list" where
  "zoomEvents k = concat (replicate k [zoomTo 2, zoomTo 3])"

text \<open>A plan with one room of 4 by 2 at the origin, and a plan with two equal rooms.\<close>

definition roomPlan :: plan where
  "roomPlan =
     (createBlankPlan ''2024-05-01T09:00:00.000Z'' ''2024-05-01T09:00:00.000Z'' 12 9 M ''Plan'')
       \<lparr>areas := [mkArea ''room'' ''Room'' ''#bfdbfe'' ''#1d4ed8'' 0.04 (Rect (mkRect 0 0 4 2)) None]\<rparr>"

definition twinPlan :: plan where
  "twinPlan =
     (createBlankPlan ''2024-05-01T09:00:00.000Z'' ''2024-05-01T09:00:00.000Z'' 12 9 M ''Plan'')
       \<lparr>areas := [mkArea ''twin-a'' ''Twin A'' ''#bfdbfe'' ''#1d4ed8'' 0.04 (Rect (mkRect 1 1 2 2)) None,
                   mkArea ''twin-b'' ''Twin B'' ''#bfdbfe'' ''#1d4ed8'' 0.04 (Rect (mkRect 1 1 2 2)) None]\<rparr>"

text \<open>An environment in which the difference is empty, as when the cutters cover the subject.\<close>

definition coveredEnv :: env where
  "coveredEnv = demoEnv\<lparr>pc_difference := (\<lambda>subject clips. [])\<rparr>"


text \<open>
  The plan object of \<open>seedPlan\<close> with a given zoom, time of the last update and areas,
  the object of a rect, the two area objects of \<open>seedPlan\<close>, and the area object that
  \<open>createAreasFromRect\<close> pushes for a rect of 1 by 1 at (2, 2), with the \<open>parentId\<close>
  property that its object literal always writes; last, that object without the
  property.
\<close>

definition planValue :: "jsvalue \<Rightarrow> string \<Rightarrow> jsvalue list \<Rightarrow> jsvalue" where
  "planValue z t as =
     JsObject [(''version'', JsString ''1.0''), (''units'', JsString ''m''),
               (''canvas'', JsObject [(''width'', JsNum 12), (''height'', JsNum 9), (''zoom'', z),
                                     (''pan'', JsObject [(''x'', JsNum 0), (''y'', JsNum 0)])]),
               (''areas'', JsArray as), (''areaGroups'', JsArray []),
               (''meta'', JsObject [(''name'', JsString ''Demo Floor''),
                                   (''createdAt'', JsString ''2024-05-01T09:00:00.000Z''),
                                   (''updatedAt'', JsString t)])]"

definition rectValue :: "real \<Rightarrow> real \<Rightarrow> real \<Rightarrow> real \<Rightarrow> jsvalue" where
  "rectValue x y w h =
     JsObject [(''type'', JsString ''rect''), (''x'', JsNum x), (''y'', JsNum y),
               (''width'', JsNum w), (''height'', JsNum h)]"

definition seedAreaValues :: "jsvalue list" where
  "seedAreaValues =
     [JsObject [(''id'', JsString ''area-a''), (''name'', JsString ''Area 1''),
                (''fill'', JsString ''#bfdbfe''), (''stroke'', JsString ''#1d4ed8''),
                (''strokeWidth'', JsNum 0.04), (''shape'', rectValue 1 1 4 3)],
      JsObject [(''id'', JsString ''area-b''), (''name'', JsString ''Area 1 B''),
                (''fill'', JsString ''#fecdd3''), (''stroke'', JsString ''#be123c''),
                (''strokeWidth'', JsNum 0.04), (''shape'', rectValue 6 2 4.5 4)]]"

definition createdAreaValue :: "jsvalue \<Rightarrow> jsvalue" where
  "createdAreaValue parent =
     JsObject [(''id'', JsString ''uuid-0''), (''name'', JsString ''Area 2''),
               (''fill'', JsString ''#bfdbfe''), (''stroke'', JsString ''#1d4ed8''),
               (''strokeWidth'', JsNum 0.04), (''shape'', rectValue 2 2 1 1),
               (''parentId'', parent)]"

definition droppedAreaValue :: jsvalue where
  "droppedAreaValue =
     JsObject [(''id'', JsString ''uuid-0''), (''name'', JsString ''Area 2''),
               (''fill'', JsString ''#bfdbfe''), (''stroke'', JsString ''#1d4ed8''),
               (''strokeWidth'', JsNum 0.04), (''shape'', rectValue 2 2 1 1)]"

text \<open>The double nearest to 7.500000000000001: it is \<open>7.5 + 2^-50\<close>.\<close>

definition tieAngle :: real where
  "tieAngle = 8444249301319681 / 2 ^ 50"

section \<open>Verified properties\<close>

subsection \<open>Looking up and changing areas\<close>

lemma findArea_Some:
  "findArea p i = Some a \<Longrightarrow> area_id a = i \<and> a \<in> set (areas p)"
  unfolding findArea_def by (auto simp: find_Some_iff)

lemma find_modifyFirst:
  "find (\<lambda>a. area_id a = i) xs = Some a \<Longrightarrow> area_id (f a) = i \<Longrightarrow>
     find (\<lambda>a. area_id a = i) (modifyFirst i f xs) = Some (f a)"
  by (induction xs) (auto split: if_splits)

lemma findArea_setShape:
  "findArea p i = Some a \<Longrightarrow> findArea (setShape i s p) i = Some (a\<lparr>shape := s\<rparr>)"
  unfolding findArea_def setShape_def
  using find_modifyFirst[of i "areas p" a "\<lambda>a. a\<lparr>shape := s\<rparr>"]
  by (auto simp: find_Some_iff)

lemma areas_ensureUpdated: "areas (ensureUpdated ev p) = areas p"
  by (simp add: ensureUpdated_def)


lemma findArea_ensureUpdated: "findArea (ensureUpdated ev p) i = findArea p i"
  by (simp add: findArea_def areas_ensureUpdated)

lemma find_modifyFirst_other:
  "j \<noteq> i \<Longrightarrow> (\<And>a. area_id (f a) = area_id a) \<Longrightarrow>
     find (\<lambda>a. area_id a = j) (modifyFirst i f xs) = find (\<lambda>a. area_id a = j) xs"
  by (induction xs) auto

lemma findArea_setShape_other:
  "j \<noteq> i \<Longrightarrow> findArea (setShape i s p) j = findArea p j"
  unfolding findArea_def setShape_def
  by (simp add: find_modifyFirst_other)

lemma map_nth_fun: "map (\<lambda>k. f (xs ! k)) [0 ..< length xs] = map f xs"
  by (rule nth_equalityI) simp_all

lemma demoPlan_areas:
  "areas demoPlan =
     [mkArea ''area-a'' ''Area 1'' ''#bfdbfe'' ''#1d4ed8'' 0.04
        (Rect ((mkRect 0 0 1 1)\<lparr>rect_x := 1, rect_y := 1, rect_width := 4, rect_height := 3\<rparr>)) None,
      mkArea ''area-b'' ''Area 1 B'' ''#fecdd3'' ''#be123c'' 0.04
        (Rect ((mkRect 0 0 1 1)\<lparr>rect_x := 6, rect_y := 2, rect_width := 4.5, rect_height := 4\<rparr>)) None]"
  by (simp add: demoPlan_def seedPlan_def Let_def createBlankPlan_def defaultAreaName_def
      nextAreaIndex_def digitChars_def)

lemma demoPlan_canvas:
  "canvas demoPlan = \<lparr>b_width = 12, b_height = 9, zoom = 1, pan = (0, 0)\<rparr>"
  by (simp add: demoPlan_def seedPlan_def Let_def createBlankPlan_def)


subsection \<open>Rounding\<close>

text \<open>
  \<open>roundDouble\<close> is monotone, has a relative error of at most \<open>2^-53\<close> and leaves a number
  of at most 53 significant bits as it is. Then what a rounding does to signs and sizes.
\<close>

lemma roundHalfEven_err: "\<bar>of_int (roundHalfEven y) - y\<bar> \<le> 1 / 2"
proof -
  have "of_int \<lfloor>y\<rfloor> \<le> y" "y < of_int \<lfloor>y\<rfloor> + 1" by linarith+
  then show ?thesis by (auto simp: roundHalfEven_def Let_def)
qed

lemma roundHalfEven_range: "\<lfloor>y\<rfloor> \<le> roundHalfEven y \<and> roundHalfEven y \<le> \<lfloor>y\<rfloor> + 1"
  by (simp add: roundHalfEven_def Let_def)

lemma roundHalfEven_of_int: "roundHalfEven (of_int n) = n"
  by (simp add: roundHalfEven_def Let_def)

lemma roundHalfEven_mono:
  assumes "x \<le> y"
  shows "roundHalfEven x \<le> roundHalfEven y"
proof (cases "\<lfloor>x\<rfloor> = \<lfloor>y\<rfloor>")
  case True
  with assms show ?thesis by (auto simp: roundHalfEven_def Let_def)
next
  case False
  from assms have "\<lfloor>x\<rfloor> \<le> \<lfloor>y\<rfloor>" by (rule floor_mono)
  with False have "\<lfloor>x\<rfloor> + 1 \<le> \<lfloor>y\<rfloor>" by simp
  with roundHalfEven_range [of x] roundHalfEven_range [of y] show ?thesis by linarith
qed

lemma powr_powi: "(2::real) powr of_int k = 2 powi k"
  by (simp add: powr_real_of_int')

lemma floor_log2_iff:
  assumes "0 < m"
  shows "(\<lfloor>log 2 m\<rfloor> - 52 = e) = (2 ^ 52 * 2 powi e \<le> m \<and> m < 2 ^ 53 * 2 powi e)"
proof -
  have "(\<lfloor>log 2 m\<rfloor> = e + 52) = (2 powi (e + 52) \<le> m \<and> m < 2 powi (e + 52 + 1))"
    using floor_log_eq_powr_iff [OF assms, of 2 "e + 52"] unfolding powr_powi by simp
  moreover have "(2::real) powi (e + 52) = 2 ^ 52 * 2 powi e"
    by (simp add: power_int_add)
  moreover have "(2::real) powi (e + 52 + 1) = 2 ^ 53 * 2 powi e"
    by (simp add: power_int_add)
  moreover have "(\<lfloor>log 2 m\<rfloor> - 52 = e) = (\<lfloor>log 2 m\<rfloor> = e + 52)" by auto
  ultimately show ?thesis by simp
qed

lemma exponent_bounds:
  assumes "x \<noteq> 0"
  shows "2 ^ 52 * 2 powi (\<lfloor>log 2 \<bar>x\<bar>\<rfloor> - 52) \<le> \<bar>x\<bar>"
    and "\<bar>x\<bar> < 2 ^ 53 * 2 powi (\<lfloor>log 2 \<bar>x\<bar>\<rfloor> - 52)"
proof -
  from assms have pos: "0 < \<bar>x\<bar>" by simp
  from floor_log2_iff [OF pos, of "\<lfloor>log 2 \<bar>x\<bar>\<rfloor> - 52"]
  show "2 ^ 52 * 2 powi (\<lfloor>log 2 \<bar>x\<bar>\<rfloor> - 52) \<le> \<bar>x\<bar>"
    and "\<bar>x\<bar> < 2 ^ 53 * 2 powi (\<lfloor>log 2 \<bar>x\<bar>\<rfloor> - 52)" by simp_all
qed

lemma exponent_unique:
  assumes "2 ^ 52 * 2 powi e \<le> \<bar>x\<bar>" and "\<bar>x\<bar> < 2 ^ 53 * 2 powi e"
  shows "\<lfloor>log 2 \<bar>x\<bar>\<rfloor> - 52 = e"
proof -
  have p: "(0::real) < 2 ^ 52 * 2 powi e" by (simp add: zero_less_power_int)
  with assms(1) have pos: "0 < \<bar>x\<bar>" by linarith
  from floor_log2_iff [OF pos, of e] assms show ?thesis by simp
qed


lemma roundDouble_roundPos: "x \<noteq> 0 \<Longrightarrow> roundDouble x = sgn x * roundPos \<bar>x\<bar>"
  by (simp add: roundDouble_def roundPos_def Let_def)

lemma roundPos_scaled:
  assumes "0 < m"
  defines "e \<equiv> \<lfloor>log 2 m\<rfloor> - 52"
  shows "2 ^ 52 \<le> m / 2 powi e" and "m / 2 powi e < 2 ^ 53"
proof -
  have p: "(0::real) < 2 powi e" by (simp add: zero_less_power_int)
  from assms have "m \<noteq> 0" by simp
  from exponent_bounds [OF this] assms
  have "2 ^ 52 * 2 powi e \<le> m" "m < 2 ^ 53 * 2 powi e" by simp_all
  with p show "2 ^ 52 \<le> m / 2 powi e" and "m / 2 powi e < 2 ^ 53"
    by (simp_all add: pos_le_divide_eq pos_divide_less_eq)
qed

lemma roundPos_err:
  assumes "0 < m"
  shows "\<bar>roundPos m - m\<bar> \<le> m / 2 ^ 53"
proof -
  define e where "e = \<lfloor>log 2 m\<rfloor> - 52"
  define y where "y = m / 2 powi e"
  have p: "(0::real) < 2 powi e" by (simp add: zero_less_power_int)
  have m: "m = y * 2 powi e" using p by (simp add: y_def)
  have y: "2 ^ 52 \<le> y" unfolding y_def e_def by (rule roundPos_scaled [OF assms])
  have r: "roundPos m = of_int (roundHalfEven y) * 2 powi e"
    by (simp add: roundPos_def e_def y_def)
  have "roundPos m - m = of_int (roundHalfEven y) * 2 powi e - y * 2 powi e"
    using r m by linarith
  then have "roundPos m - m = (of_int (roundHalfEven y) - y) * 2 powi e"
    by (simp add: algebra_simps)
  then have "\<bar>roundPos m - m\<bar> = \<bar>of_int (roundHalfEven y) - y\<bar> * 2 powi e"
    using p by (simp add: abs_mult)
  also have "\<dots> \<le> (1 / 2) * 2 powi e"
    using roundHalfEven_err [of y] p by (intro mult_right_mono) simp_all
  also have "\<dots> \<le> (y / 2 ^ 53) * 2 powi e"
    using y p by (intro mult_right_mono) simp_all
  also have "\<dots> = m / 2 ^ 53" by (simp add: m)
  finally show ?thesis .
qed

lemma roundPos_bounds:
  assumes "0 < m"
  defines "e \<equiv> \<lfloor>log 2 m\<rfloor> - 52"
  shows "2 ^ 52 * 2 powi e \<le> roundPos m" and "roundPos m \<le> 2 ^ 53 * 2 powi e"
proof -
  define y where "y = m / 2 powi e"
  have p: "(0::real) < 2 powi e" by (simp add: zero_less_power_int)
  have y: "2 ^ 52 \<le> y" "y < 2 ^ 53"
    unfolding y_def e_def by (rule roundPos_scaled [OF assms(1)])+
  have "roundHalfEven (of_int (2 ^ 52)) \<le> roundHalfEven y"
    using y(1) by (intro roundHalfEven_mono) simp
  then have lo: "2 ^ 52 \<le> roundHalfEven y" by (simp only: roundHalfEven_of_int)
  have "roundHalfEven y \<le> roundHalfEven (of_int (2 ^ 53))"
    using y(2) by (intro roundHalfEven_mono) simp
  then have hi: "roundHalfEven y \<le> 2 ^ 53" by (simp only: roundHalfEven_of_int)
  have r: "roundPos m = of_int (roundHalfEven y) * 2 powi e"
    by (simp add: roundPos_def e_def y_def)
  from lo have "(2::real) ^ 52 \<le> of_int (roundHalfEven y)"
    by (metis of_int_le_iff of_int_numeral of_int_power)
  then show "2 ^ 52 * 2 powi e \<le> roundPos m"
    unfolding r using p by (intro mult_right_mono) simp_all
  from hi have "of_int (roundHalfEven y) \<le> (2::real) ^ 53"
    by (metis of_int_le_iff of_int_numeral of_int_power)
  then show "roundPos m \<le> 2 ^ 53 * 2 powi e"
    unfolding r using p by (intro mult_right_mono) simp_all
qed

lemma roundPos_pos: "0 < m \<Longrightarrow> 0 < roundPos m"
proof -
  assume m: "0 < m"
  have "(0::real) < 2 ^ 52 * 2 powi (\<lfloor>log 2 m\<rfloor> - 52)" by (simp add: zero_less_power_int)
  with roundPos_bounds(1) [OF m] show ?thesis by linarith
qed

lemma roundPos_mono:
  assumes "0 < a" and "a \<le> b"
  shows "roundPos a \<le> roundPos b"
proof -
  define ea where "ea = \<lfloor>log 2 a\<rfloor> - 52"
  define eb where "eb = \<lfloor>log 2 b\<rfloor> - 52"
  from assms have b: "0 < b" by simp
  have "log 2 a \<le> log 2 b" using assms by simp
  then have le: "ea \<le> eb" unfolding ea_def eb_def by (simp add: floor_mono)
  show ?thesis
  proof (cases "ea = eb")
    case True
    have p: "(0::real) < 2 powi eb" by (simp add: zero_less_power_int)
    have "a / 2 powi eb \<le> b / 2 powi eb" using assms p by (simp add: divide_right_mono)
    then have "roundHalfEven (a / 2 powi eb) \<le> roundHalfEven (b / 2 powi eb)"
      by (rule roundHalfEven_mono)
    then have "(of_int (roundHalfEven (a / 2 powi eb)) :: real) \<le> of_int (roundHalfEven (b / 2 powi eb))"
      by simp
    then have "of_int (roundHalfEven (a / 2 powi eb)) * (2::real) powi eb
                 \<le> of_int (roundHalfEven (b / 2 powi eb)) * 2 powi eb"
      using p by (intro mult_right_mono) simp_all
    then show ?thesis
      using True by (simp add: roundPos_def ea_def [symmetric] eb_def [symmetric])
  next
    case False
    with le have "ea + 1 \<le> eb" by simp
    then have "(2::real) powi (ea + 1) \<le> 2 powi eb" by (intro power_int_increasing) simp_all
    then have "2 ^ 53 * 2 powi ea \<le> 2 ^ 52 * (2::real) powi eb"
      by (simp add: power_int_add)
    moreover have "roundPos a \<le> 2 ^ 53 * 2 powi ea"
      unfolding ea_def by (rule roundPos_bounds(2) [OF assms(1)])
    moreover have "2 ^ 52 * 2 powi eb \<le> roundPos b"
      unfolding eb_def by (rule roundPos_bounds(1) [OF b])
    ultimately show ?thesis by linarith
  qed
qed

lemma roundDouble_err: "\<bar>roundDouble x - x\<bar> \<le> (1 / 2 ^ 53) * \<bar>x\<bar>"
proof (cases "x = 0")
  case True
  then show ?thesis by (simp add: roundDouble_def)
next
  case False
  then have m: "0 < \<bar>x\<bar>" by simp
  have "\<bar>roundDouble x - x\<bar> = \<bar>roundPos \<bar>x\<bar> - \<bar>x\<bar>\<bar>"
  proof (cases "0 < x")
    case True
    then show ?thesis by (simp add: roundDouble_roundPos [OF False])
  next
    case False
    with \<open>x \<noteq> 0\<close> have "x < 0" by simp
    then show ?thesis by (simp add: roundDouble_roundPos [OF \<open>x \<noteq> 0\<close>])
  qed
  with roundPos_err [OF m] show ?thesis by simp
qed

lemma roundDouble_mono: "mono roundDouble"
proof (rule monoI)
  fix x y :: real
  assume xy: "x \<le> y"
  have neg: "roundDouble z = - roundPos \<bar>z\<bar>" if "z < 0" for z
    using that by (simp add: roundDouble_roundPos)
  have pos: "roundDouble z = roundPos \<bar>z\<bar>" if "0 < z" for z
    using that by (simp add: roundDouble_roundPos)
  have zero: "roundDouble 0 = 0" by (simp add: roundDouble_def)
  consider "y < 0" | "x < 0" "0 \<le> y" | "0 \<le> x" by linarith
  then show "roundDouble x \<le> roundDouble y"
  proof cases
    case 1
    with xy have x: "x < 0" by simp
    from 1 xy have "roundPos \<bar>y\<bar> \<le> roundPos \<bar>x\<bar>" by (intro roundPos_mono) simp_all
    then show ?thesis by (simp add: neg [OF x] neg [OF 1])
  next
    case 2
    have "roundDouble x < 0" using roundPos_pos [of "\<bar>x\<bar>"] 2(1) by (simp add: neg)
    moreover have "0 \<le> roundDouble y"
    proof (cases "y = 0")
      case True
      then show ?thesis by (simp add: zero)
    next
      case False
      with 2(2) have "0 < y" by simp
      then show ?thesis using roundPos_pos [of "\<bar>y\<bar>"] by (simp add: pos)
    qed
    ultimately show ?thesis by linarith
  next
    case 3
    show ?thesis
    proof (cases "x = 0")
      case True
      show ?thesis
      proof (cases "y = 0")
        case True
        with \<open>x = 0\<close> show ?thesis by simp
      next
        case False
        with xy \<open>x = 0\<close> have "0 < y" by simp
        then show ?thesis using roundPos_pos [of "\<bar>y\<bar>"] by (simp add: pos zero \<open>x = 0\<close>)
      qed
    next
      case False
      with 3 have x: "0 < x" by simp
      with xy have y: "0 < y" by simp
      from x xy have "roundPos \<bar>x\<bar> \<le> roundPos \<bar>y\<bar>" by (intro roundPos_mono) simp_all
      then show ?thesis by (simp add: pos [OF x] pos [OF y])
    qed
  qed
qed

lemma rounding_roundDouble: "rounding (1 / 2 ^ 53) roundDouble"
  unfolding rounding_def using roundDouble_mono roundDouble_err by simp

lemma roundDouble_eval:
  assumes "2 ^ 52 \<le> \<bar>x\<bar> * 2 ^ k" and "\<bar>x\<bar> * 2 ^ k < 2 ^ 53"
  shows "roundDouble x = sgn x * of_int (roundHalfEven (\<bar>x\<bar> * 2 ^ k)) / 2 ^ k"
proof -
  have x: "x \<noteq> 0" using assms(1) by auto
  have e: "(2::real) powi (- int k) = 1 / 2 ^ k"
    by (simp add: power_int_minus power_int_of_nat field_simps)
  have "2 ^ 52 * 2 powi (- int k) \<le> \<bar>x\<bar>" "\<bar>x\<bar> < 2 ^ 53 * 2 powi (- int k)"
    using assms by (simp_all add: e field_simps)
  then have "\<lfloor>log 2 \<bar>x\<bar>\<rfloor> - 52 = - int k" by (rule exponent_unique)
  then show ?thesis
    using x by (simp add: roundDouble_def Let_def e)
qed

lemma rounding_err: "rounding u rnd \<Longrightarrow> \<bar>rnd x - x\<bar> \<le> u * \<bar>x\<bar>"
  by (simp add: rounding_def)

lemma rounding_nonneg:
  assumes "rounding u rnd" and "0 \<le> x"
  shows "0 \<le> rnd x"
proof -
  from assms(1) have u: "0 \<le> u" "u \<le> 1" by (simp_all add: rounding_def)
  from rounding_err [OF assms(1), of x] assms(2) have "x - u * x \<le> rnd x" by simp
  moreover have "u * x \<le> 1 * x" using u assms(2) by (intro mult_right_mono) simp_all
  ultimately show ?thesis by simp
qed

lemma rounding_nonpos:
  assumes "rounding u rnd" and "x \<le> 0"
  shows "rnd x \<le> 0"
proof -
  from assms(1) have u: "0 \<le> u" "u \<le> 1" by (simp_all add: rounding_def)
  from rounding_err [OF assms(1), of x] assms(2) have "rnd x \<le> x + u * (- x)" by simp
  moreover have "u * (- x) \<le> 1 * (- x)" using u assms(2) by (intro mult_right_mono) simp_all
  ultimately show ?thesis by simp
qed

lemma rounding_abs_le:
  assumes "rounding u rnd"
  shows "\<bar>rnd x\<bar> \<le> \<bar>x\<bar> + u * \<bar>x\<bar>"
  using rounding_err [OF assms, of x] by linarith

lemma rounding_abs_ge:
  assumes "rounding u rnd"
  shows "\<bar>x\<bar> - u * \<bar>x\<bar> \<le> \<bar>rnd x\<bar>"
  using rounding_err [OF assms, of x] by linarith

lemma roundDouble_zero: "roundDouble 0 = 0"
  by (simp add: roundDouble_def)

text \<open>A number with at most 53 significant bits is its own rounding.\<close>

lemma roundDouble_dyadic:
  assumes "\<bar>n\<bar> < 2 ^ 53"
  shows "roundDouble (of_int n / 2 ^ k) = of_int n / 2 ^ k"
proof (cases "n = 0")
  case True
  then show ?thesis by (simp add: roundDouble_zero)
next
  case False
  define x :: real where "x = of_int n / 2 ^ k"
  define e where "e = \<lfloor>log 2 \<bar>x\<bar>\<rfloor> - 52"
  have x0: "x \<noteq> 0" using False by (simp add: x_def)
  have ax: "\<bar>x\<bar> = of_int \<bar>n\<bar> / 2 ^ k" by (simp add: x_def)
  have lo: "2 ^ 52 * 2 powi e \<le> \<bar>x\<bar>"
    unfolding e_def by (rule exponent_bounds(1) [OF x0])
  have "(of_int \<bar>n\<bar> :: real) < of_int (2 ^ 53)" using assms by (simp only: of_int_less_iff)
  then have n53: "(of_int \<bar>n\<bar> :: real) < 2 ^ 53" by simp
  then have "\<bar>x\<bar> < 2 ^ 53 / 2 ^ k" unfolding ax by (simp add: divide_strict_right_mono)
  with lo have "2 ^ 52 * 2 powi e < (2 ^ 53 / 2 ^ k :: real)" by linarith
  then have "2 powi e < (2 / 2 ^ k :: real)" by simp
  also have "(2 / 2 ^ k :: real) = 2 powi (1 - int k)"
    by (simp add: power_int_diff power_int_of_nat)
  finally have lt: "(2::real) powi e < 2 powi (1 - int k)" .
  have "e < 1 - int k"
  proof (rule ccontr)
    assume "\<not> e < 1 - int k"
    then have "1 - int k \<le> e" by simp
    then have "(2::real) powi (1 - int k) \<le> 2 powi e" by (intro power_int_increasing) simp_all
    with lt show False by simp
  qed
  then have ek: "e \<le> - int k" by simp
  define j where "j = nat (- int k - e)"
  have e: "e = - int (k + j)" using ek by (simp add: j_def)
  have pe: "(2::real) powi e = 1 / 2 ^ (k + j)"
    unfolding e by (simp add: power_int_minus power_int_of_nat field_simps del: of_nat_add)
  have "\<bar>x\<bar> / 2 powi e = of_int \<bar>n\<bar> * 2 ^ j"
    by (simp add: ax pe power_add)
  also have "\<dots> = of_int (\<bar>n\<bar> * 2 ^ j)" by simp
  finally have y: "\<bar>x\<bar> / 2 powi e = of_int (\<bar>n\<bar> * 2 ^ j)" .
  have "roundDouble x = sgn x * (of_int (roundHalfEven (\<bar>x\<bar> / 2 powi e)) * 2 powi e)"
    using x0 by (simp add: roundDouble_def Let_def e_def)
  also have "\<dots> = sgn x * (of_int (\<bar>n\<bar> * 2 ^ j) * 2 powi e)"
    by (simp only: y roundHalfEven_of_int)
  also have "\<dots> = sgn x * \<bar>x\<bar>"
    by (simp add: ax pe power_add)
  also have "\<dots> = x" by (simp add: sgn_real_def)
  finally show ?thesis by (simp add: x_def)
qed

lemma roundDouble_numeral:
  "numeral w < (2::int) ^ 53 \<Longrightarrow> roundDouble (numeral w) = numeral w"
  using roundDouble_dyadic [of "numeral w" 0] by simp

lemma roundDouble_neg_numeral:
  "numeral w < (2::int) ^ 53 \<Longrightarrow> roundDouble (- numeral w) = - numeral w"
  using roundDouble_dyadic [of "- numeral w" 0] by simp

subsection \<open>Commands on an unknown identifier\<close>

text \<open>
  The handlers that look their target up return the plan they were given when the
  identifier is unknown.
\<close>

lemma unknown_id_is_noop:
  assumes "findArea p i = None"
  shows "performCommand ev p (AreaRename i nm) = unchanged p"
    and "performCommand ev p (AreaRecolor i fl) = unchanged p"
    and "performCommand ev p (AreaMove i dx dy) = unchanged p"
    and "performCommand ev p (AreaMovePolygon i dx dy) = unchanged p"
    and "performCommand ev p (AreaResize i h dx dy) = unchanged p"
    and "performCommand ev p (AreaSetRect i r) = unchanged p"
    and "performCommand ev p (AreaSetEllipse i e) = unchanged p"
    and "performCommand ev p (AreaSetPolygon i pts) = unchanged p"
    and "performCommand ev p (AreaSetMultiPolygon i polys) = unchanged p"
    and "performCommand ev p (AreaMirror i axis) = unchanged p"
    and "performCommand ev p (AreaDivide i parts dir) = unchanged p"
    and "performCommand ev p (AreaSetLabelOffset i off) = unchanged p"
    and "performCommand ev p (AreaSetEdgeLabelOffset i k off) = unchanged p"
    and "performCommand ev p (AreaSetRadiusLabelOffset i off) = unchanged p"
  using assms
  by (simp_all add: renameArea_def recolorArea_def moveArea_def movePolygonArea_def resizeArea_def
      setAreaRect_def setEllipse_def setPolygon_def setMultiPolygon_def mirrorArea_def
      divideArea_def setAreaLabelOffset_def setEdgeLabelOffset_def setRadiusLabelOffset_def)

text \<open>
  \<open>deleteArea\<close> has no such guard: on an unknown identifier it removes nothing and
  stamps \<open>meta.updatedAt\<close>.
\<close>

lemma unknown_id_delete:
  assumes "findArea p i = None"
  shows "res_plan (performCommand ev p (AreaDelete i)) = ensureUpdated ev p"
proof -
  from assms have "\<forall>a\<in>set (areas p). area_id a \<noteq> i"
    by (auto simp: findArea_def find_None_iff)
  then have "filter (\<lambda>a. area_id a \<noteq> i) (areas p) = areas p" by simp
  then show ?thesis by (simp add: deleteArea_def result_def)
qed

text \<open>
  Claim C1 at a failing input: \<open>area/delete\<close> with the unknown identifier \<open>ghost\<close> on
  \<open>demoPlan\<close> returns a plan with the same areas whose \<open>meta.updatedAt\<close> is the
  reading of the clock, so the plan differs from the input and the store records the
  command; \<open>group/delete\<close> with an unknown identifier changes the plan too.
\<close>

theorem delete_unknown_id_stamps_plan:
  "findArea demoPlan ''ghost'' = None \<and>
   res_plan (performCommand demoEnv demoPlan (AreaDelete ''ghost'')) \<noteq> demoPlan \<and>
   areas (res_plan (performCommand demoEnv demoPlan (AreaDelete ''ghost''))) = areas demoPlan \<and>
   updatedAt (meta demoPlan) = ''2024-05-01T09:00:00.001Z'' \<and>
   updatedAt (meta (res_plan (performCommand demoEnv demoPlan (AreaDelete ''ghost''))))
     = ''2024-05-01T10:00:00.000Z'' \<and>
   changed demoStore (demoEnv, 0, AreaDelete ''ghost'') \<and>
   res_plan (performCommand demoEnv demoPlan (GroupDelete ''ghost'')) \<noteq> demoPlan"
proof -
  have f: "findArea demoPlan ''ghost'' = None"
    by (simp add: findArea_def demoPlan_areas mkArea_def)
  have u0: "updatedAt (meta demoPlan) = ''2024-05-01T09:00:00.001Z''"
    by (simp add: demoPlan_def seedPlan_def Let_def createBlankPlan_def)
  have d: "res_plan (performCommand demoEnv demoPlan (AreaDelete ''ghost'')) = ensureUpdated demoEnv demoPlan"
    by (rule unknown_id_delete[OF f])
  have u1: "updatedAt (meta (ensureUpdated demoEnv p)) = ''2024-05-01T10:00:00.000Z''" for p
    by (simp add: ensureUpdated_def demoEnv_def)
  have ne: "ensureUpdated demoEnv p \<noteq> demoPlan" for p
  proof
    assume "ensureUpdated demoEnv p = demoPlan"
    then have "updatedAt (meta (ensureUpdated demoEnv p)) = updatedAt (meta demoPlan)" by simp
    then show False by (simp add: u0 u1)
  qed
  have g: "res_plan (performCommand demoEnv demoPlan (GroupDelete ''ghost'')) \<noteq> demoPlan"
    by (simp add: removeGroup_def result_def ne)
  have sp: "st_plan demoStore = demoPlan"
    by (simp add: demoStore_def initialStore_def)
  have c: "changed demoStore (demoEnv, 0, AreaDelete ''ghost'')"
    unfolding changed_def fst_conv snd_conv sp clonePlan_def d
    using ne[of demoPlan] by (simp add: eq_commute)
  show ?thesis
    unfolding d using f g c by (simp add: u0 u1 ne areas_ensureUpdated)
qed

subsection \<open>History manager\<close>

lemma sliceLast_append: "sliceLast n (sliceLast n xs @ ys) = sliceLast n (xs @ ys)"
proof (cases "length xs \<le> n")
  case True
  then show ?thesis by (simp add: sliceLast_def)
next
  case False
  then show ?thesis
    by (simp add: sliceLast_def min_def drop_append add.commute)
qed

lemma sliceLast_short: "length xs \<le> n \<Longrightarrow> sliceLast n xs = xs"
  by (simp add: sliceLast_def)

lemma length_sliceLast: "length (sliceLast n xs) = min n (length xs)"
  by (simp add: sliceLast_def)

lemma sliceLast_suffix:
  "length rs \<le> n \<Longrightarrow> sliceLast n (us @ rs) = sliceLast (n - length rs) us @ rs"
  by (simp add: sliceLast_def)

lemma store_apply_changed:
  "changed st e \<Longrightarrow>
     st_plan (store_apply st e) = rec_after (recordOf st e) \<and>
     st_history (store_apply st e) = pushHistory (st_history st) (recordOf st e)"
  by (simp add: store_apply_def recordOf_def Let_def clonePlan_def)

lemma recordOf_before: "rec_before (recordOf st e) = st_plan st"
  by (simp add: recordOf_def Let_def clonePlan_def)

lemma length_run_records: "length (run_records st es) = length es"
  by (induction es arbitrary: st) simp_all

lemma store_run_Cons: "store_run st (e # es) = store_run (store_apply st e) es"
  by (simp add: store_run_def)

lemma store_run_Nil: "store_run st [] = st"
  by (simp add: store_run_def)

lemma store_run_append: "store_run st (xs @ ys) = store_run (store_run st xs) ys"
  by (simp add: store_run_def)

lemma all_effective_append:
  "all_effective st (xs @ ys) = (all_effective st xs \<and> all_effective (store_run st xs) ys)"
  by (induction xs arbitrary: st) (simp_all add: store_run_Nil store_run_Cons)

lemma run_history:
  "all_effective st es \<Longrightarrow> es \<noteq> [] \<Longrightarrow>
     h_undo (st_history (store_run st es)) = sliceLast 100 (h_undo (st_history st) @ run_records st es)
     \<and> h_redo (st_history (store_run st es)) = []"
proof (induction es arbitrary: st)
  case Nil
  then show ?case by simp
next
  case (Cons e es)
  then have ch: "changed st e" and eff: "all_effective (store_apply st e) es" by simp_all
  have h1: "st_history (store_apply st e) = pushHistory (st_history st) (recordOf st e)"
    using store_apply_changed[OF ch] by simp
  show ?case
  proof (cases "es = []")
    case True
    then show ?thesis by (simp add: store_run_Cons store_run_Nil h1 pushHistory_def)
  next
    case False
    from Cons.IH[OF eff False] show ?thesis
      by (simp add: store_run_Cons h1 pushHistory_def sliceLast_append)
  qed
qed

lemma run_chain:
  "all_effective st es \<Longrightarrow> es \<noteq> [] \<Longrightarrow>
     rec_before (hd (run_records st es)) = st_plan st \<and>
     rec_after (last (run_records st es)) = st_plan (store_run st es)"
proof (induction es arbitrary: st)
  case Nil
  then show ?case by simp
next
  case (Cons e es)
  then have ch: "changed st e" and eff: "all_effective (store_apply st e) es" by simp_all
  show ?case
  proof (cases "es = []")
    case True
    then show ?thesis
      using store_apply_changed[OF ch] by (simp add: store_run_Cons store_run_Nil recordOf_before)
  next
    case False
    then have "run_records (store_apply st e) es \<noteq> []"
      using length_run_records[of "store_apply st e" es] by auto
    with Cons.IH[OF eff False] show ?thesis
      by (simp add: store_run_Cons recordOf_before)
  qed
qed

lemma undo_pops:
  "h_undo (st_history s) = pre @ rs \<Longrightarrow>
     h_undo (st_history ((store_undo ^^ length rs) s)) = pre \<and>
     h_redo (st_history ((store_undo ^^ length rs) s)) = rs @ h_redo (st_history s) \<and>
     (rs \<noteq> [] \<longrightarrow> st_plan ((store_undo ^^ length rs) s) = rec_before (hd rs))"
proof (induction rs arbitrary: s rule: rev_induct)
  case Nil
  then show ?case by simp
next
  case (snoc r rs)
  let ?s1 = "store_undo s"
  have u1: "h_undo (st_history ?s1) = pre @ rs"
    and r1: "h_redo (st_history ?s1) = r # h_redo (st_history s)"
    and p1: "st_plan ?s1 = rec_before r"
    using snoc.prems by (simp_all add: store_undo_def Let_def clonePlan_def butlast_append)
  have step: "(store_undo ^^ length (rs @ [r])) s = (store_undo ^^ length rs) ?s1"
    by (simp add: funpow_swap1)
  from snoc.IH[OF u1] show ?case
    unfolding step by (cases "rs = []") (simp_all add: r1 p1)
qed

lemma redo_pushes:
  "h_redo (st_history s) = rs @ post \<Longrightarrow>
     h_undo (st_history ((store_redo ^^ length rs) s)) = h_undo (st_history s) @ rs \<and>
     h_redo (st_history ((store_redo ^^ length rs) s)) = post \<and>
     (rs \<noteq> [] \<longrightarrow> st_plan ((store_redo ^^ length rs) s) = rec_after (last rs))"
proof (induction rs arbitrary: s)
  case Nil
  then show ?case by simp
next
  case (Cons r rs)
  let ?s1 = "store_redo s"
  have u1: "h_undo (st_history ?s1) = h_undo (st_history s) @ [r]"
    and r1: "h_redo (st_history ?s1) = rs @ post"
    and p1: "st_plan ?s1 = rec_after r"
    using Cons.prems by (simp_all add: store_redo_def Let_def clonePlan_def)
  have step: "(store_redo ^^ length (r # rs)) s = (store_redo ^^ length rs) ?s1"
    by (simp add: funpow_swap1)
  from Cons.IH[OF r1] show ?case
    unfolding step by (cases "rs = []") (simp_all add: u1 p1)
qed

text \<open>
  Claim C2, as the code has it: for every store state and every sequence of at most 100
  effective commands applied through \<open>apply\<close>, calling \<open>undo\<close> as many times as there
  are commands gives back the plan that held before the first command, and calling
  \<open>redo\<close> as many times after that gives back the plan that held after the last one.
\<close>

theorem undo_redo_round_trip:
  assumes eff: "all_effective st es" and n: "length es \<le> 100"
  shows "st_plan ((store_undo ^^ length es) (store_run st es)) = st_plan st \<and>
         st_plan ((store_redo ^^ length es) ((store_undo ^^ length es) (store_run st es)))
           = st_plan (store_run st es)"
proof (cases "es = []")
  case True
  then show ?thesis by (simp add: store_run_Nil)
next
  case False
  let ?rs = "run_records st es"
  let ?s = "store_run st es"
  have len: "length ?rs = length es" by (rule length_run_records)
  with False have ne: "?rs \<noteq> []" by auto
  from run_history[OF eff False] len n
  have u: "h_undo (st_history ?s) = sliceLast (100 - length ?rs) (h_undo (st_history st)) @ ?rs"
    and r: "h_redo (st_history ?s) = []"
    by (simp_all add: sliceLast_suffix)
  from undo_pops[OF u] ne
  have p: "st_plan ((store_undo ^^ length ?rs) ?s) = rec_before (hd ?rs)"
    and r2: "h_redo (st_history ((store_undo ^^ length ?rs) ?s)) = ?rs @ []"
    by (simp_all add: r)
  from redo_pushes[OF r2] ne
  have p2: "st_plan ((store_redo ^^ length ?rs) ((store_undo ^^ length ?rs) ?s)) = rec_after (last ?rs)"
    by simp
  from run_chain[OF eff False] p p2 show ?thesis by (simp add: len)
qed

text \<open>
  Claim C5: starting from an empty undo stack, after 150 effective commands the undo stack
  has exactly 100 records, and they are the records of the 100 most recent commands in
  order, newest last: the records of the first 50 commands are gone.
\<close>

theorem history_bound:
  assumes "h_undo (st_history st) = []" and "length es = 150" and "all_effective st es"
  shows "length (h_undo (st_history (store_run st es))) = 100 \<and>
         h_undo (st_history (store_run st es)) = drop 50 (run_records st es)"
proof -
  from assms(2) have ne: "es \<noteq> []" by auto
  from run_history[OF assms(3) ne] assms(1)
  have "h_undo (st_history (store_run st es)) = sliceLast 100 (run_records st es)" by simp
  then show ?thesis
    by (simp add: sliceLast_def length_run_records assms(2))
qed

text \<open>
  Beyond the cap: after 101 effective commands the undo stack holds 100 records, so 101
  calls of \<open>undo\<close> stop at the plan that held after the first command.
\<close>

lemma undo_beyond_cap:
  assumes e0: "h_undo (st_history st) = []" and len: "length es = 101" and eff: "all_effective st es"
  shows "st_plan ((store_undo ^^ 101) (store_run st es)) \<noteq> st_plan st"
proof -
  from len obtain e es' where es: "es = e # es'" and len': "length es' = 100"
    by (cases es) auto
  let ?st1 = "store_apply st e"
  let ?rs = "run_records ?st1 es'"
  let ?s = "store_run st es"
  from eff es have ch: "changed st e" and eff': "all_effective ?st1 es'" by simp_all
  from len' have ne': "es' \<noteq> []" by auto
  have lrs: "length ?rs = 100" using length_run_records[of ?st1 es'] len' by simp
  then have nrs: "?rs \<noteq> []" by auto
  from len have ne: "es \<noteq> []" by auto
  from run_history[OF eff ne] e0
  have "h_undo (st_history ?s) = sliceLast 100 (recordOf st e # ?rs)" by (simp add: es)
  then have u: "h_undo (st_history ?s) = [] @ ?rs" by (simp add: sliceLast_def lrs)
  from undo_pops[OF u] nrs
  have u2: "h_undo (st_history ((store_undo ^^ 100) ?s)) = []"
    and p: "st_plan ((store_undo ^^ 100) ?s) = rec_before (hd ?rs)"
    by (simp_all add: lrs)
  have "(store_undo ^^ Suc 100) ?s = store_undo ((store_undo ^^ 100) ?s)"
    by (simp only: funpow.simps o_apply)
  then have "(store_undo ^^ 101) ?s = store_undo ((store_undo ^^ 100) ?s)" by simp
  also have "\<dots> = (store_undo ^^ 100) ?s" using u2 by (simp add: store_undo_def)
  finally have "st_plan ((store_undo ^^ 101) ?s) = rec_before (hd ?rs)" using p by simp
  also have "\<dots> = st_plan ?st1" using run_chain[OF eff' ne'] by simp
  finally have "st_plan ((store_undo ^^ 101) ?s) = st_plan ?st1" .
  moreover have "st_plan ?st1 \<noteq> st_plan st"
    using ch store_apply_changed[OF ch] by (simp add: changed_def recordOf_def Let_def clonePlan_def)
  ultimately show ?thesis by simp
qed

text \<open>Setting the zoom to a value that it does not have is an effective command.\<close>

lemma zoom_step:
  assumes "zoom (canvas (st_plan st)) \<noteq> max 0.1 z"
  shows "changed st (zoomTo z)" and "zoom (canvas (st_plan (store_apply st (zoomTo z)))) = max 0.1 z"
proof -
  have z: "zoom (canvas (res_plan (performCommand demoEnv (st_plan st) (PlanSetViewport (Some z) None)))) = max 0.1 z"
    by (simp add: setViewport_def result_def ensureUpdated_def)
  with assms show ch: "changed st (zoomTo z)"
    by (auto simp: changed_def zoomTo_def clonePlan_def)
  with z show "zoom (canvas (st_plan (store_apply st (zoomTo z)))) = max 0.1 z"
    by (simp add: store_apply_def zoomTo_def Let_def)
qed

lemma zoomEvents_effective:
  "zoom (canvas (st_plan st)) \<noteq> 2 \<Longrightarrow>
     all_effective st (zoomEvents k) \<and> zoom (canvas (st_plan (store_run st (zoomEvents k)))) \<noteq> 2"
proof (induction k arbitrary: st)
  case 0
  then show ?case by (simp add: zoomEvents_def store_run_Nil)
next
  case (Suc k)
  let ?s1 = "store_apply st (zoomTo 2)"
  let ?s2 = "store_apply ?s1 (zoomTo 3)"
  from Suc.prems have c1: "changed st (zoomTo 2)" and z1: "zoom (canvas (st_plan ?s1)) = 2"
    using zoom_step[of st 2] by simp_all
  then have c2: "changed ?s1 (zoomTo 3)" and z2: "zoom (canvas (st_plan ?s2)) = 3"
    using zoom_step[of ?s1 3] by simp_all
  from z2 have "zoom (canvas (st_plan ?s2)) \<noteq> 2" by simp
  from Suc.IH[OF this] c1 c2 show ?case
    by (simp add: zoomEvents_def store_run_Cons)
qed

lemma length_zoomEvents: "length (zoomEvents k) = 2 * k"
  by (induction k) (simp_all add: zoomEvents_def)

lemma demoStore_zoom: "zoom (canvas (st_plan demoStore)) \<noteq> 2"
  by (simp add: demoStore_def initialStore_def demoPlan_def seedPlan_def createBlankPlan_def Let_def)

lemma demoStore_undo: "h_undo (st_history demoStore) = []"
  by (simp add: demoStore_def initialStore_def)

text \<open>The 150 commands of \<open>zoomEvents 75\<close> on the demo store satisfy the hypotheses of C5.\<close>

theorem history_bound_witness:
  "h_undo (st_history demoStore) = [] \<and> length (zoomEvents 75) = 150 \<and>
   all_effective demoStore (zoomEvents 75) \<and>
   length (h_undo (st_history (store_run demoStore (zoomEvents 75)))) = 100 \<and>
   h_undo (st_history (store_run demoStore (zoomEvents 75)))
     = drop 50 (run_records demoStore (zoomEvents 75))"
  using history_bound[of demoStore "zoomEvents 75"] zoomEvents_effective[OF demoStore_zoom, of 75]
    demoStore_undo length_zoomEvents[of 75]
  by (simp add: length_run_records)

text \<open>The 100 commands of \<open>zoomEvents 50\<close> on the demo store satisfy the hypotheses of C2.\<close>

theorem undo_redo_round_trip_witness:
  "all_effective demoStore (zoomEvents 50) \<and> length (zoomEvents 50) \<le> 100 \<and>
   st_plan ((store_undo ^^ length (zoomEvents 50)) (store_run demoStore (zoomEvents 50)))
     = st_plan demoStore \<and>
   st_plan ((store_redo ^^ length (zoomEvents 50))
              ((store_undo ^^ length (zoomEvents 50)) (store_run demoStore (zoomEvents 50))))
     = st_plan (store_run demoStore (zoomEvents 50))"
  using undo_redo_round_trip[of demoStore "zoomEvents 50"]
    zoomEvents_effective[OF demoStore_zoom, of 50] length_zoomEvents[of 50]
  by simp

text \<open>
  Claim C2 as stated, with no bound on the number of commands, fails for 101 effective
  commands on the demo store: 101 calls of \<open>undo\<close> do not give back the starting plan.
\<close>

theorem undo_unbounded_counterexample:
  "all_effective demoStore (zoomEvents 50 @ [zoomTo 2]) \<and>
   length (zoomEvents 50 @ [zoomTo 2]) = 101 \<and>
   st_plan ((store_undo ^^ 101) (store_run demoStore (zoomEvents 50 @ [zoomTo 2])))
     \<noteq> st_plan demoStore"
proof -
  have e50: "all_effective demoStore (zoomEvents 50)"
    and z50: "zoom (canvas (st_plan (store_run demoStore (zoomEvents 50)))) \<noteq> 2"
    using zoomEvents_effective[OF demoStore_zoom, of 50] by simp_all
  from z50 have "changed (store_run demoStore (zoomEvents 50)) (zoomTo 2)"
    using zoom_step(1)[of "store_run demoStore (zoomEvents 50)" 2] by simp
  with e50 have eff: "all_effective demoStore (zoomEvents 50 @ [zoomTo 2])"
    by (simp add: all_effective_append)
  have len: "length (zoomEvents 50 @ [zoomTo 2]) = 101"
    by (simp add: length_zoomEvents)
  from undo_beyond_cap[OF demoStore_undo len eff] eff len show ?thesis by simp
qed

subsection \<open>The clamp invariant\<close>

lemma clamp_upper: "clamp v lo hi \<le> hi"
  by (simp add: clamp_def)

lemma clamp_lower: "lo \<le> hi \<Longrightarrow> lo \<le> clamp v lo hi"
  by (simp add: clamp_def)























subsection \<open>Subtracting areas\<close>

lemma isSubject_firstMax: "isSubject targets b = firstMax targets b"
  by (auto simp: isSubject_def firstMax_def list_ex_iff list_all_iff)

lemma firstMax_foldl:
  "firstMax pre b \<Longrightarrow>
     firstMax (pre @ xs)
       (foldl (\<lambda>largest a. if shapeArea (shape a) > shapeArea (shape largest) then a else largest) b xs)"
proof (induction xs arbitrary: pre b)
  case Nil
  then show ?case by simp
next
  case (Cons x xs)
  let ?b' = "if shapeArea (shape x) > shapeArea (shape b) then x else b"
  from Cons.prems obtain k where k: "k < length pre" "b = pre ! k"
    and le: "\<forall>a \<in> set pre. shapeArea (shape a) \<le> shapeArea (shape b)"
    and lt: "\<forall>a \<in> set (take k pre). shapeArea (shape a) < shapeArea (shape b)"
    by (auto simp: firstMax_def)
  have "firstMax (pre @ [x]) ?b'"
  proof (cases "shapeArea (shape x) > shapeArea (shape b)")
    case True
    with le have "\<forall>a \<in> set pre. shapeArea (shape a) < shapeArea (shape x)" by fastforce
    with True show ?thesis
      unfolding firstMax_def
      by (intro exI[of _ "length pre"]) (auto simp: nth_append)
  next
    case False
    with k le lt show ?thesis
      unfolding firstMax_def
      by (intro exI[of _ k]) (auto simp: nth_append)
  qed
  from Cons.IH[OF this] show ?case by simp
qed

lemma largestArea_isSubject:
  assumes "targets \<noteq> []"
  shows "isSubject targets (largestArea targets)"
proof -
  from assms obtain t ts where ts: "targets = t # ts" by (cases targets) auto
  have "firstMax [t] t" by (simp add: firstMax_def)
  from firstMax_foldl[OF this, of ts] show ?thesis
    by (simp add: isSubject_firstMax largestArea_def ts)
qed

lemma isSubject_mem: "isSubject targets b \<Longrightarrow> b \<in> set targets"
  by (auto simp: isSubject_firstMax firstMax_def)

lemma resolveTargets_mem:
  "a \<in> set (resolveTargets p ids) \<Longrightarrow> area_id a \<in> set ids \<and> findArea p (area_id a) = Some a"
  using findArea_Some by (fastforce simp: resolveTargets_def map_filter_def)

lemma length_resolveTargets: "length (resolveTargets p ids) \<le> length ids"
  by (simp add: resolveTargets_def map_filter_def)

lemma find_filter_keep:
  "(\<And>a. P a \<Longrightarrow> Q a) \<Longrightarrow> find P (filter Q xs) = find P xs"
  by (induction xs) auto

lemma find_filter_none:
  "(\<And>a. P a \<Longrightarrow> \<not> Q a) \<Longrightarrow> find P (filter Q xs) = None"
  by (induction xs) auto

lemma filter_modifyFirst_hidden:
  "(\<And>a. area_id a = i \<Longrightarrow> \<not> P a \<and> \<not> P (f a)) \<Longrightarrow> filter P (modifyFirst i f xs) = filter P xs"
  by (induction xs) auto

lemma filter_filter_imp:
  "(\<And>a. P a \<Longrightarrow> Q a) \<Longrightarrow> filter P (filter Q xs) = filter P xs"
  by (induction xs) auto

text \<open>
  Claim C4: when at least two identifiers of an \<open>area/subtract\<close> resolve, the subject
  is the target of largest computed area, the first such in the order of the input, and
  the difference is computed from it and from all targets with another identifier. If no
  polygon comes back (none whose outer ring has at least 3 entries), no identifier of the
  payload resolves any more and the selection is empty; otherwise the subject keeps its
  identifier and all its fields but the shape, which is the result of the difference, no
  other identifier of the payload resolves any more, and the subject is selected. The
  areas that the payload does not name are kept as they were.
\<close>

theorem subtract_subject_and_cutters:
  assumes t: "targets = resolveTargets p ids" and two: "2 \<le> length targets"
    and b: "base = largestArea targets"
    and c: "col = collectRings (pc_difference ev (shapeToPolygons (shape base))
                    (concat (map (\<lambda>a. shapeToPolygons (shape a))
                       (filter (\<lambda>a. area_id a \<noteq> area_id base) targets))))"
    and r: "res = performCommand ev p (AreaSubtract ids)"
  shows "isSubject targets base \<and>
         filter (\<lambda>a. area_id a \<notin> set ids) (areas (res_plan res))
           = filter (\<lambda>a. area_id a \<notin> set ids) (areas p) \<and>
         (col = [] \<longrightarrow>
            (\<forall>j \<in> set ids. findArea (res_plan res) j = None) \<and> res_selection res = Some []) \<and>
         (col \<noteq> [] \<longrightarrow>
            findArea (res_plan res) (area_id base) = Some (base\<lparr>shape := shapeOfRings col\<rparr>) \<and>
            (\<forall>j \<in> set ids. j \<noteq> area_id base \<longrightarrow> findArea (res_plan res) j = None) \<and>
            res_selection res = Some [area_id base])"
proof -
  from two have ne: "targets \<noteq> []" by auto
  have subj: "isSubject targets base"
    unfolding b by (rule largestArea_isSubject[OF ne])
  then have "base \<in> set (resolveTargets p ids)" using isSubject_mem t by simp
  from resolveTargets_mem[OF this]
  have bid: "area_id base \<in> set ids" and fb: "findArea p (area_id base) = Some base" by simp_all
  from two length_resolveTargets[of p ids] t have len: "\<not> length ids < 2" by simp
  from two t have len2: "\<not> length (resolveTargets p ids) < 2" by simp
  let ?kept = "filter (\<lambda>a. area_id a = area_id base \<or> area_id a \<notin> set ids) (areas p)"
  let ?n = "p\<lparr>areas := ?kept\<rparr>"
  have fn: "findArea ?n (area_id base) = Some base"
    using fb by (simp add: findArea_def find_filter_keep)
  show ?thesis
  proof (cases "col = []")
    case True
    have res: "res = result (ensureUpdated ev (p\<lparr>areas := filter (\<lambda>a. area_id a \<notin> set ids) (areas p)\<rparr>))
                      (Some []) ''Subtract areas''"
      using True len len2 c b t
      by (simp add: r subtractAreas_def Let_def)
    have "findArea (res_plan res) j = None" if "j \<in> set ids" for j
      using that by (auto simp: res result_def findArea_def areas_ensureUpdated find_None_iff)
    with subj True show ?thesis
      by (simp add: res result_def areas_ensureUpdated)
  next
    case False
    have res: "res = result (ensureUpdated ev (setShape (area_id base) (shapeOfRings col) ?n))
                      (Some [area_id base]) ''Subtract areas''"
      using False len len2 c b t fn
      by (simp add: r subtractAreas_def Let_def)
    have f1: "findArea (res_plan res) (area_id base) = Some (base\<lparr>shape := shapeOfRings col\<rparr>)"
      by (simp add: res result_def findArea_ensureUpdated findArea_setShape[OF fn])
    have f2: "findArea (res_plan res) j = None" if "j \<in> set ids" "j \<noteq> area_id base" for j
    proof -
      have "findArea ?n j = None"
        using that by (auto simp: findArea_def find_None_iff)
      with that(2) show ?thesis
        by (simp add: res result_def findArea_ensureUpdated findArea_setShape_other)
    qed
    have f3: "filter (\<lambda>a. area_id a \<notin> set ids) (areas (res_plan res))
                = filter (\<lambda>a. area_id a \<notin> set ids) (areas p)"
    proof -
      have "filter (\<lambda>a. area_id a \<notin> set ids) (modifyFirst (area_id base) (\<lambda>a. a\<lparr>shape := shapeOfRings col\<rparr>) ?kept)
              = filter (\<lambda>a. area_id a \<notin> set ids) ?kept"
        by (rule filter_modifyFirst_hidden) (simp add: bid)
      also have "\<dots> = filter (\<lambda>a. area_id a \<notin> set ids) (areas p)"
        by (rule filter_filter_imp) simp
      finally show ?thesis
        by (simp add: res result_def areas_ensureUpdated setShape_def)
    qed
    from subj False f1 f2 f3 show ?thesis
      by (simp add: res result_def)
  qed
qed

lemma twinPlan_areas:
  "areas twinPlan =
     [mkArea ''twin-a'' ''Twin A'' ''#bfdbfe'' ''#1d4ed8'' 0.04 (Rect (mkRect 1 1 2 2)) None,
      mkArea ''twin-b'' ''Twin B'' ''#bfdbfe'' ''#1d4ed8'' 0.04 (Rect (mkRect 1 1 2 2)) None]"
  by (simp add: twinPlan_def createBlankPlan_def)

text \<open>
  On \<open>demoPlan\<close> the second area is the larger one; the first does not meet it, so the
  difference is the subject. On \<open>twinPlan\<close> the areas are equal, the first is the
  subject, and the second covers it.
\<close>

theorem subtract_subject_and_cutters_witness:
  "2 \<le> length (resolveTargets demoPlan [''area-a'', ''area-b'']) \<and>
   isSubject (resolveTargets demoPlan [''area-a'', ''area-b'']) (areas demoPlan ! 1) \<and>
   findArea (res_plan (performCommand demoEnv demoPlan (AreaSubtract [''area-a'', ''area-b''])))
      ''area-b''
     = Some ((areas demoPlan ! 1)
          \<lparr>shape := Polygon \<lparr>poly_points = [(6, 2), (10.5, 2), (10.5, 6), (6, 6)],
                              poly_holes = Some [], poly_rotation = None\<rparr>\<rparr>) \<and>
   findArea (res_plan (performCommand demoEnv demoPlan (AreaSubtract [''area-a'', ''area-b''])))
      ''area-a'' = None \<and>
   2 \<le> length (resolveTargets twinPlan [''twin-a'', ''twin-b'']) \<and>
   isSubject (resolveTargets twinPlan [''twin-a'', ''twin-b'']) (areas twinPlan ! 0) \<and>
   findArea (res_plan (performCommand coveredEnv twinPlan (AreaSubtract [''twin-a'', ''twin-b''])))
      ''twin-a'' = None \<and>
   findArea (res_plan (performCommand coveredEnv twinPlan (AreaSubtract [''twin-a'', ''twin-b''])))
      ''twin-b'' = None \<and>
   res_selection (performCommand coveredEnv twinPlan (AreaSubtract [''twin-a'', ''twin-b''])) = Some []"
proof -
  have tg: "resolveTargets demoPlan [''area-a'', ''area-b''] = areas demoPlan"
    by (simp add: resolveTargets_def findArea_def demoPlan_areas mkArea_def)
  have lb: "largestArea (areas demoPlan) = areas demoPlan ! 1"
    by (simp add: largestArea_def demoPlan_areas mkArea_def shapeArea_def mkRect_def)
  have idb: "area_id (areas demoPlan ! 1) = ''area-b''"
    by (simp add: demoPlan_areas mkArea_def)
  have col: "collectRings (pc_difference demoEnv (shapeToPolygons (shape (areas demoPlan ! 1)))
               (concat (map (\<lambda>a. shapeToPolygons (shape a))
                  (filter (\<lambda>a. area_id a \<noteq> area_id (areas demoPlan ! 1)) (areas demoPlan)))))
             = [([(6, 2), (10.5, 2), (10.5, 6), (6, 6)], [])]"
    by (simp add: demoEnv_def demoPlan_areas mkArea_def shapeToPolygons_def Let_def mkRect_def
        ringsToPoints_def)
  have sh: "shapeOfRings [([(6, 2), (10.5, 2), (10.5, 6), (6, 6)], [])]
              = Polygon \<lparr>poly_points = [(6, 2), (10.5, 2), (10.5, 6), (6, 6)],
                         poly_holes = Some [], poly_rotation = None\<rparr>"
    by (simp add: shapeOfRings_def)
  have two: "2 \<le> length (resolveTargets demoPlan [''area-a'', ''area-b''])"
    by (simp add: tg demoPlan_areas)
  have tg2: "resolveTargets twinPlan [''twin-a'', ''twin-b''] = areas twinPlan"
    by (simp add: resolveTargets_def findArea_def twinPlan_areas mkArea_def)
  have lb2: "largestArea (areas twinPlan) = areas twinPlan ! 0"
    by (simp add: largestArea_def twinPlan_areas mkArea_def shapeArea_def mkRect_def)
  have col2: "collectRings (pc_difference coveredEnv s c) = []" for s c
    by (simp add: coveredEnv_def demoEnv_def)
  have two2: "2 \<le> length (resolveTargets twinPlan [''twin-a'', ''twin-b''])"
    by (simp add: tg2 twinPlan_areas)
  have ida: "area_id (areas twinPlan ! 0) = ''twin-a''"
    by (simp add: twinPlan_areas mkArea_def)
  note d = subtract_subject_and_cutters[OF refl two refl refl refl, of demoEnv,
      unfolded tg lb col sh]
  then have d1: "isSubject (areas demoPlan) (areas demoPlan ! 1)"
    and d2: "findArea (res_plan (performCommand demoEnv demoPlan (AreaSubtract [''area-a'', ''area-b''])))
               (area_id (areas demoPlan ! 1))
             = Some ((areas demoPlan ! 1)
                  \<lparr>shape := Polygon \<lparr>poly_points = [(6, 2), (10.5, 2), (10.5, 6), (6, 6)],
                                      poly_holes = Some [], poly_rotation = None\<rparr>\<rparr>)"
    and d3: "\<forall>j \<in> set [''area-a'', ''area-b'']. j \<noteq> area_id (areas demoPlan ! 1) \<longrightarrow>
               findArea (res_plan (performCommand demoEnv demoPlan (AreaSubtract [''area-a'', ''area-b'']))) j = None"
    by blast+
  note t = subtract_subject_and_cutters[OF refl two2 refl refl refl, of coveredEnv,
      unfolded tg2 lb2 col2]
  then have t1: "isSubject (areas twinPlan) (areas twinPlan ! 0)"
    and t2: "\<forall>j \<in> set [''twin-a'', ''twin-b''].
               findArea (res_plan (performCommand coveredEnv twinPlan (AreaSubtract [''twin-a'', ''twin-b'']))) j = None"
    and t3: "res_selection (performCommand coveredEnv twinPlan (AreaSubtract [''twin-a'', ''twin-b''])) = Some []"
    by blast+
  from d3 have d4: "findArea (res_plan (performCommand demoEnv demoPlan (AreaSubtract [''area-a'', ''area-b''])))
                      ''area-a'' = None"
    unfolding idb by simp
  from t2 have t4: "findArea (res_plan (performCommand coveredEnv twinPlan (AreaSubtract [''twin-a'', ''twin-b''])))
                      ''twin-a'' = None"
    and t5: "findArea (res_plan (performCommand coveredEnv twinPlan (AreaSubtract [''twin-a'', ''twin-b''])))
                      ''twin-b'' = None"
    by simp_all
  show ?thesis
    unfolding tg tg2
    using two two2 d1 d2[unfolded idb] d4 t1 t3 t4 t5
    unfolding tg tg2 by blast
qed

subsection \<open>Dividing an area\<close>

lemma splitRectEvenly_two_vertical:
  "splitRectEvenly r 2 Vertical =
     [mkRect (rect_x r) (rect_y r) (rect_width r / 2) (rect_height r),
      mkRect (rect_x r + rect_width r / 2) (rect_y r) (rect_width r / 2) (rect_height r)]"
proof -
  have "[0 ..< nat 2] = [0, Suc 0]" by (simp add: upt_rec)
  then show ?thesis by (simp add: splitRectEvenly_def Let_def)
qed

lemma partitionNames_two:
  "partitionNames base 2 =
     [rev (dropWhile isSpace (rev base)) @ '' A'', rev (dropWhile isSpace (rev base)) @ '' B'']"
proof -
  have "[0 ..< nat 2] = [0, Suc 0]" by (simp add: upt_rec)
  then show ?thesis by (simp add: partitionNames_def Let_def suffixes_def)
qed

text \<open>
  Claim C6: in a plan where the identifier resolves to an area whose shape is the rect
  \<open>{x: 0, y: 0, width: 4, height: 2}\<close>, \<open>area/divide\<close> with 2 partitions and
  direction vertical removes every area with that identifier and appends exactly two
  areas, with the rects \<open>{0, 0, 2, 2}\<close> and \<open>{2, 0, 2, 2}\<close>, each with
  \<open>parentId\<close> the identifier of the original.
\<close>

theorem divide_scenario:
  assumes "findArea p i = Some a" and "shape a = Rect r"
    and "rect_x r = 0" and "rect_y r = 0" and "rect_width r = 4" and "rect_height r = 2"
  shows "areas (res_plan (performCommand ev p (AreaDivide i 2 (Some Vertical)))) =
           filter (\<lambda>b. area_id b \<noteq> i) (areas p) @
           [mkArea (uuid ev 0) (partitionNames (area_name a) 2 ! 0) (fill a) (stroke a)
              (strokeWidth a) (Rect (mkRect 0 0 2 2)) (Some i),
            mkArea (uuid ev 1) (partitionNames (area_name a) 2 ! 1) (fill a) (stroke a)
              (strokeWidth a) (Rect (mkRect 2 0 2 2)) (Some i)]"
proof -
  have idx: "[0 ..< Suc (Suc 0)] = [0, Suc 0]" by (simp add: upt_rec)
  from assms(1) have ida: "area_id a = i" by (simp add: findArea_Some)
  show ?thesis
    using assms ida
    by (simp add: divideArea_def Let_def result_def areas_ensureUpdated orElse_def
        splitRectEvenly_two_vertical partitionNames_two idx)
qed

text \<open>The scenario on \<open>roomPlan\<close>.\<close>

theorem divide_scenario_witness:
  "findArea roomPlan ''room'' = Some (hd (areas roomPlan)) \<and>
   shape (hd (areas roomPlan)) = Rect (mkRect 0 0 4 2) \<and>
   map shape (areas (res_plan (performCommand demoEnv roomPlan (AreaDivide ''room'' 2 (Some Vertical)))))
     = [Rect (mkRect 0 0 2 2), Rect (mkRect 2 0 2 2)] \<and>
   map parentId (areas (res_plan (performCommand demoEnv roomPlan (AreaDivide ''room'' 2 (Some Vertical)))))
     = [Some ''room'', Some ''room'']"
proof -
  have f: "findArea roomPlan ''room'' = Some (hd (areas roomPlan))"
    and s: "shape (hd (areas roomPlan)) = Rect (mkRect 0 0 4 2)"
    by (simp_all add: roomPlan_def findArea_def mkArea_def createBlankPlan_def)
  have r: "rect_x (mkRect 0 0 4 2) = 0" "rect_y (mkRect 0 0 4 2) = 0"
    "rect_width (mkRect 0 0 4 2) = 4" "rect_height (mkRect 0 0 4 2) = 2"
    by (simp_all add: mkRect_def)
  have a: "filter (\<lambda>b. area_id b \<noteq> ''room'') (areas roomPlan) = []"
    by (simp add: roomPlan_def mkArea_def createBlankPlan_def)
  from divide_scenario[OF f s r, of demoEnv] f s show ?thesis
    by (simp add: a mkArea_def)
qed

subsection \<open>Angle snapping\<close>

text \<open>
  The circular distance of the spec is the least distance from the difference of the
  angles to a multiple of 360, and it is attained.
\<close>

lemma mod360_bounds:
  fixes u :: real
  shows "0 \<le> u - 360 * of_int \<lfloor>u / 360\<rfloor>" and "u - 360 * of_int \<lfloor>u / 360\<rfloor> < 360"
proof -
  have "of_int \<lfloor>u / 360\<rfloor> \<le> u / 360" by (rule of_int_floor_le)
  then show "0 \<le> u - 360 * of_int \<lfloor>u / 360\<rfloor>" by simp
  have "u / 360 < of_int \<lfloor>u / 360\<rfloor> + 1" by linarith
  then show "u - 360 * of_int \<lfloor>u / 360\<rfloor> < 360" by (simp add: field_simps)
qed

lemma circ_dist_le: "circ_dist a s \<le> \<bar>a - s + 360 * of_int k\<bar>"
proof -
  define q where "q = \<lfloor>(a - s) / 360\<rfloor>"
  define r where "r = (a - s) - 360 * of_int q"
  have r0: "0 \<le> r" and r1: "r < 360"
    unfolding r_def q_def by (rule mod360_bounds)+
  have eq: "a - s + 360 * of_int k = r + 360 * of_int (q + k)"
    by (simp add: r_def algebra_simps)
  define z :: real where "z = of_int (q + k)"
  have "min r (360 - r) \<le> \<bar>r + 360 * z\<bar>"
  proof (cases "0 \<le> q + k")
    case True
    then have "0 \<le> z" by (simp add: z_def)
    with r0 show ?thesis by linarith
  next
    case False
    then have "q + k \<le> -1" by simp
    then have "z \<le> of_int (-1)" unfolding z_def by (rule of_int_le_iff[THEN iffD2])
    then have "z \<le> -1" by simp
    with r1 show ?thesis by linarith
  qed
  then have "min r (360 - r) \<le> \<bar>r + 360 * of_int (q + k)\<bar>" by (simp add: z_def)
  then show ?thesis
    unfolding circ_dist_def Let_def q_def[symmetric] r_def[symmetric] eq .
qed

lemma circ_dist_attained: "\<exists>k. circ_dist a s = \<bar>a - s + 360 * of_int k\<bar>"
proof -
  define q where "q = \<lfloor>(a - s) / 360\<rfloor>"
  define r where "r = (a - s) - 360 * of_int q"
  have r0: "0 \<le> r" and r1: "r < 360"
    unfolding r_def q_def by (rule mod360_bounds)+
  have c: "circ_dist a s = min r (360 - r)"
    by (simp add: circ_dist_def Let_def q_def r_def)
  show ?thesis
  proof (cases "r \<le> 360 - r")
    case True
    have "a - s + 360 * of_int (- q) = r" by (simp add: r_def)
    with True r0 c have "circ_dist a s = \<bar>a - s + 360 * of_int (- q)\<bar>" by simp
    then show ?thesis by blast
  next
    case False
    have "a - s + 360 * of_int (- q - 1) = r - 360" by (simp add: r_def algebra_simps)
    with False r1 c have "circ_dist a s = \<bar>a - s + 360 * of_int (- q - 1)\<bar>" by simp
    then show ?thesis by blast
  qed
qed

lemma js_rem_nonneg: "0 \<le> t \<Longrightarrow> js_rem t 360 = t - 360 * of_int \<lfloor>t / 360\<rfloor>"
  by (simp add: js_rem_def)

text \<open>The circular distance is at most 180 and moves no faster than the angle.\<close>

lemma circ_dist_le_180: "circ_dist a s \<le> 180"
proof -
  have "0 \<le> (a - s) - 360 * of_int \<lfloor>(a - s) / 360\<rfloor>" by (rule mod360_bounds)
  then show ?thesis by (simp add: circ_dist_def Let_def min_def)
qed

lemma circ_dist_lipschitz: "circ_dist a s \<le> circ_dist b t + \<bar>(a - s) - (b - t)\<bar>"
proof -
  obtain k where k: "circ_dist b t = \<bar>b - t + 360 * of_int k\<bar>"
    using circ_dist_attained by blast
  have "circ_dist a s \<le> \<bar>a - s + 360 * of_int k\<bar>" by (rule circ_dist_le)
  then show ?thesis unfolding k by linarith
qed

text \<open>
  With a dividend that is not negative, the delta of the loop is the circular distance;
  with a negative dividend the remainder is not positive and the delta is at least 180.
\<close>

lemma remDelta_nonneg:
  assumes "0 \<le> t"
  shows "\<bar>js_rem t 360 - 180\<bar> = circ_dist (t - 540) 0"
proof -
  define k where "k = \<lfloor>t / 360\<rfloor>"
  define m where "m = t - 360 * of_int k"
  have m0: "0 \<le> m" and m1: "m < 360"
    unfolding m_def k_def by (rule mod360_bounds)+
  have d: "js_rem t 360 = m"
    using assms by (simp add: js_rem_nonneg k_def m_def)
  have as: "t - 540 = m + 360 * of_int k - 540"
    by (simp add: m_def)
  show ?thesis
  proof (cases "m < 180")
    case True
    have "\<lfloor>(t - 540) / 360\<rfloor> = k - 2"
      unfolding as using m0 True by (intro floor_unique) (simp_all add: field_simps)
    then have "circ_dist (t - 540) 0 = min (m + 180) (360 - (m + 180))"
      unfolding circ_dist_def Let_def by (simp add: as algebra_simps)
    with d m0 True show ?thesis by simp
  next
    case False
    have "\<lfloor>(t - 540) / 360\<rfloor> = k - 1"
      unfolding as using m1 False by (intro floor_unique) (simp_all add: field_simps)
    then have "circ_dist (t - 540) 0 = min (m - 180) (360 - (m - 180))"
      unfolding circ_dist_def Let_def by (simp add: as algebra_simps)
    with d m1 False show ?thesis by simp
  qed
qed

lemma js_rem_neg:
  assumes "t < 0"
  shows "js_rem t 360 \<le> 0" and "- 360 < js_rem t 360"
proof -
  have r: "js_rem t 360 = - ((- t) - 360 * of_int \<lfloor>(- t) / 360\<rfloor>)"
    using assms by (simp add: js_rem_def)
  from mod360_bounds [of "- t"] show "js_rem t 360 \<le> 0" and "- 360 < js_rem t 360"
    unfolding r by linarith+
qed

text \<open>The error of the dividend \<open>angle - s + 540\<close> as the code computes it.\<close>

lemma dividend_err:
  assumes "rounding u rnd"
  shows "\<bar>rnd (rnd x + 540) - (x + 540)\<bar> \<le> u * (2 + u) * \<bar>x\<bar> + 540 * u"
proof -
  from assms have u: "0 \<le> u" by (simp add: rounding_def)
  have e1: "\<bar>rnd x - x\<bar> \<le> u * \<bar>x\<bar>" by (rule rounding_err [OF assms])
  have e2: "\<bar>rnd (rnd x + 540) - (rnd x + 540)\<bar> \<le> u * \<bar>rnd x + 540\<bar>"
    by (rule rounding_err [OF assms])
  have "\<bar>rnd x + 540\<bar> \<le> \<bar>x\<bar> + u * \<bar>x\<bar> + 540"
    using rounding_abs_le [OF assms, of x] by linarith
  then have "u * \<bar>rnd x + 540\<bar> \<le> u * (\<bar>x\<bar> + u * \<bar>x\<bar> + 540)"
    using u by (rule mult_left_mono)
  with e1 e2 have "\<bar>rnd (rnd x + 540) - (x + 540)\<bar> \<le> u * \<bar>x\<bar> + u * (\<bar>x\<bar> + u * \<bar>x\<bar> + 540)"
    by linarith
  also have "\<dots> = u * (2 + u) * \<bar>x\<bar> + 540 * u" by (simp add: algebra_simps)
  finally show ?thesis .
qed

lemma snapDelta_lower:
  assumes "rounding u rnd"
  shows "circ_dist a s \<le> snapDelta rnd a s + (u * (2 + u) * \<bar>a - s\<bar> + 720 * u)"
proof -
  from assms have u: "0 \<le> u" "u \<le> 1" by (simp_all add: rounding_def)
  define t where "t = rnd (rnd (a - s) + 540)"
  define g where "g = \<bar>js_rem t 360 - 180\<bar>"
  have d: "snapDelta rnd a s = \<bar>rnd (js_rem t 360 - 180)\<bar>"
    by (simp add: snapDelta_def t_def)
  have lo: "g - u * g \<le> snapDelta rnd a s"
    unfolding d g_def by (rule rounding_abs_ge [OF assms])
  have ux: "0 \<le> u * (2 + u) * \<bar>a - s\<bar>" using u by simp
  show ?thesis
  proof (cases "0 \<le> t")
    case True
    then have g: "g = circ_dist (t - 540) 0" unfolding g_def by (rule remDelta_nonneg)
    then have g180: "g \<le> 180" by (simp add: circ_dist_le_180)
    have "u * g \<le> u * 180" using g180 u by (intro mult_left_mono) simp_all
    with lo have l: "g - 180 * u \<le> snapDelta rnd a s" by simp
    have "circ_dist a s \<le> circ_dist (t - 540) 0 + \<bar>(a - s) - (t - 540 - 0)\<bar>"
      by (rule circ_dist_lipschitz)
    moreover have "\<bar>(a - s) - (t - 540 - 0)\<bar> = \<bar>t - (a - s + 540)\<bar>" by simp
    moreover have "\<bar>t - (a - s + 540)\<bar> \<le> u * (2 + u) * \<bar>a - s\<bar> + 540 * u"
      unfolding t_def by (rule dividend_err [OF assms])
    ultimately show ?thesis using l g by linarith
  next
    case False
    then have "t < 0" by simp
    from js_rem_neg(1) [OF this] have g180: "180 \<le> g" unfolding g_def by simp
    have "g - u * g = (1 - u) * g" by (simp add: algebra_simps)
    moreover have "(1 - u) * 180 \<le> (1 - u) * g" using g180 u by (intro mult_left_mono) simp_all
    ultimately have "180 - 180 * u \<le> snapDelta rnd a s" using lo by (simp add: algebra_simps)
    with circ_dist_le_180 [of a s] ux u show ?thesis by linarith
  qed
qed

lemma snapDelta_upper:
  assumes "rounding u rnd" and "0 \<le> rnd (rnd (a - s) + 540)"
  shows "snapDelta rnd a s \<le> circ_dist a s + (u * (2 + u) * \<bar>a - s\<bar> + 720 * u)"
    and "snapDelta rnd a s \<le> 180 + 180 * u"
proof -
  from assms have u: "0 \<le> u" "u \<le> 1" by (simp_all add: rounding_def)
  define t where "t = rnd (rnd (a - s) + 540)"
  define g where "g = \<bar>js_rem t 360 - 180\<bar>"
  have d: "snapDelta rnd a s = \<bar>rnd (js_rem t 360 - 180)\<bar>"
    by (simp add: snapDelta_def t_def)
  have hi: "snapDelta rnd a s \<le> g + u * g"
    unfolding d g_def by (rule rounding_abs_le [OF assms(1)])
  from assms(2) have "0 \<le> t" by (simp add: t_def)
  then have g: "g = circ_dist (t - 540) 0" unfolding g_def by (rule remDelta_nonneg)
  then have g180: "g \<le> 180" by (simp add: circ_dist_le_180)
  have ug: "u * g \<le> u * 180" using g180 u by (intro mult_left_mono) simp_all
  with hi g180 show "snapDelta rnd a s \<le> 180 + 180 * u" by simp
  have "circ_dist (t - 540) 0 \<le> circ_dist a s + \<bar>(t - 540 - 0) - (a - s)\<bar>"
    by (rule circ_dist_lipschitz)
  moreover have "\<bar>(t - 540 - 0) - (a - s)\<bar> = \<bar>t - (a - s + 540)\<bar>" by simp
  moreover have "\<bar>t - (a - s + 540)\<bar> \<le> u * (2 + u) * \<bar>a - s\<bar> + 540 * u"
    unfolding t_def by (rule dividend_err [OF assms(1)])
  ultimately show "snapDelta rnd a s \<le> circ_dist a s + (u * (2 + u) * \<bar>a - s\<bar> + 720 * u)"
    using hi ug g by linarith
qed

lemma dividend_nonneg:
  assumes "rounding u rnd" and "u \<le> 1 / 32" and "- 517.5 \<le> x"
  shows "0 \<le> rnd (rnd x + 540)"
proof -
  from assms have u: "0 \<le> u" by (simp add: rounding_def)
  have "0 \<le> rnd x + 540"
  proof (cases "0 \<le> x")
    case True
    from rounding_nonneg [OF assms(1) this] show ?thesis by simp
  next
    case False
    with assms(3) have "\<bar>x\<bar> \<le> 517.5" by simp
    then have "u * \<bar>x\<bar> \<le> (1 / 32) * 517.5"
      using u assms(2) by (intro mult_mono) simp_all
    with rounding_err [OF assms(1), of x] assms(3) show ?thesis by linarith
  qed
  then show ?thesis by (rule rounding_nonneg [OF assms(1)])
qed

lemma snapError_bound:
  assumes "0 \<le> u" and "u \<le> 1" and "s \<in> set snaps"
  shows "u * (2 + u) * \<bar>a - s\<bar> + 720 * u \<le> snapError u a"
proof -
  from assms(3) have "0 \<le> s" "s \<le> 315" by (auto simp: snaps_def)
  then have x: "\<bar>a - s\<bar> \<le> \<bar>a\<bar> + 315" by linarith
  have "2 + u \<le> 3" using assms(2) by simp
  then have h: "u * (2 + u) \<le> u * 3" using assms(1) by (rule mult_left_mono)
  have p: "0 \<le> u * 3" using assms(1) by simp
  have q: "(0::real) \<le> \<bar>a - s\<bar>" by simp
  from mult_mono [OF h x p q]
  have "u * (2 + u) * \<bar>a - s\<bar> \<le> (u * 3) * (\<bar>a\<bar> + 315)" .
  then show ?thesis by (simp add: snapError_def algebra_simps)
qed

text \<open>
  From \<open>-382.5\<close> on, a listed angle whose dividend may be negative is no nearer than
  some listed angle up to 135, whose dividend is not.
\<close>

lemma low_snap_nearer:
  assumes "- 382.5 \<le> a" and "s \<in> set snaps" and "a - s < - 517.5"
  shows "\<exists>s' \<in> set snaps. s' \<le> 135 \<and> circ_dist a s' \<le> circ_dist a s"
proof -
  from assms(2) have s: "s \<le> 315" by (auto simp: snaps_def)
  obtain k where k: "circ_dist a s = \<bar>a - s + 360 * of_int k\<bar>"
    using circ_dist_attained by blast
  have far: "22.5 \<le> circ_dist a s"
  proof (cases "k \<le> 1")
    case True
    then have "(of_int k :: real) \<le> 1" by simp
    with assms(3) show ?thesis unfolding k by linarith
  next
    case False
    then have "2 \<le> k" by simp
    then have "(2 :: real) \<le> of_int k" by simp
    with assms(1) s show ?thesis unfolding k by linarith
  qed
  from assms(3) s have a: "a < - 202.5" by linarith
  have near: "\<exists>s' \<in> set snaps. s' \<le> 135 \<and> \<bar>a - s' + 360 * of_int 1\<bar> \<le> 22.5"
  proof -
    consider "a + 360 \<le> 7.5" | "7.5 < a + 360" "a + 360 \<le> 22.5" | "22.5 < a + 360" "a + 360 \<le> 37.5"
      | "37.5 < a + 360" "a + 360 \<le> 67.5" | "67.5 < a + 360" "a + 360 \<le> 112.5" | "112.5 < a + 360"
      by linarith
    then show ?thesis
    proof cases
      case 1
      with assms(1) have "\<bar>a - 0 + 360 * of_int 1\<bar> \<le> 22.5" by (simp add: abs_if)
      then show ?thesis by (intro bexI [of _ 0]) (simp_all add: snaps_def)
    next
      case 2
      then have "\<bar>a - 15 + 360 * of_int 1\<bar> \<le> 22.5" by (simp add: abs_if)
      then show ?thesis by (intro bexI [of _ 15]) (simp_all add: snaps_def)
    next
      case 3
      then have "\<bar>a - 30 + 360 * of_int 1\<bar> \<le> 22.5" by (simp add: abs_if)
      then show ?thesis by (intro bexI [of _ 30]) (simp_all add: snaps_def)
    next
      case 4
      then have "\<bar>a - 45 + 360 * of_int 1\<bar> \<le> 22.5" by (simp add: abs_if)
      then show ?thesis by (intro bexI [of _ 45]) (simp_all add: snaps_def)
    next
      case 5
      then have "\<bar>a - 90 + 360 * of_int 1\<bar> \<le> 22.5" by (simp add: abs_if)
      then show ?thesis by (intro bexI [of _ 90]) (simp_all add: snaps_def)
    next
      case 6
      with a have "\<bar>a - 135 + 360 * of_int 1\<bar> \<le> 22.5" by (simp add: abs_if)
      then show ?thesis by (intro bexI [of _ 135]) (simp_all add: snaps_def)
    qed
  qed
  then obtain s' where s': "s' \<in> set snaps" "s' \<le> 135" "\<bar>a - s' + 360 * of_int 1\<bar> \<le> 22.5"
    by blast
  have "circ_dist a s' \<le> \<bar>a - s' + 360 * of_int 1\<bar>" by (rule circ_dist_le)
  with s' far show ?thesis by (intro bexI [of _ s']) simp_all
qed

lemma foldl_snapStep:
  "foldl (snapStep rnd a) acc xs = (b, d) \<Longrightarrow>
     d \<le> snd acc \<and> (\<forall>s\<in>set xs. d \<le> snapDelta rnd a s) \<and>
     ((b, d) = acc \<or> (b \<in> set xs \<and> d = snapDelta rnd a b))"
proof (induction xs arbitrary: acc)
  case Nil
  then show ?case by simp
next
  case (Cons x xs)
  from Cons.prems have "foldl (snapStep rnd a) (snapStep rnd a acc x) xs = (b, d)" by simp
  from Cons.IH[OF this] show ?case
    by (auto simp: snapStep_def Let_def split: if_splits)
qed

text \<open>
  From \<open>-382.5\<close> on, the loop returns a listed snap angle, and no listed snap angle is
  nearer by more than twice the rounding error.
\<close>

lemma snapAngle_near:
  assumes r: "rounding u rnd" and u32: "u \<le> 1 / 32" and a: "- 382.5 \<le> a"
  shows "snapAngle rnd a True \<in> set snaps \<and>
         (\<forall>s\<in>set snaps. circ_dist a (snapAngle rnd a True) \<le> circ_dist a s + 2 * snapError u a)"
proof -
  from r have u: "0 \<le> u" "u \<le> 1" by (simp_all add: rounding_def)
  obtain b d where bd: "foldl (snapStep rnd a) (a, 360) snaps = (b, d)"
    by (cases "foldl (snapStep rnd a) (a, 360) snaps")
  from foldl_snapStep[OF bd]
  have le: "\<forall>s\<in>set snaps. d \<le> snapDelta rnd a s"
    and alt: "(b, d) = (a, 360) \<or> (b \<in> set snaps \<and> d = snapDelta rnd a b)" by auto
  have good: "snapDelta rnd a s \<le> circ_dist a s + snapError u a \<and> snapDelta rnd a s < 360"
    if "s \<in> set snaps" "- 517.5 \<le> a - s" for s
  proof -
    have nn: "0 \<le> rnd (rnd (a - s) + 540)"
      using r u32 that(2) by (rule dividend_nonneg)
    from snapDelta_upper(1) [OF r nn] snapError_bound [OF u that(1), of a]
    have "snapDelta rnd a s \<le> circ_dist a s + snapError u a" by linarith
    moreover from snapDelta_upper(2) [OF r nn] u32 have "snapDelta rnd a s < 360" by linarith
    ultimately show ?thesis by simp
  qed
  have zero: "0 \<in> set snaps" by (simp add: snaps_def)
  from a have "- 517.5 \<le> a - 0" by simp
  from good [OF zero this] le zero have "d < 360" by fastforce
  with alt have b: "b \<in> set snaps" and db: "d = snapDelta rnd a b" by auto
  have lower: "circ_dist a b \<le> d + snapError u a"
    using snapDelta_lower [OF r, of a b] snapError_bound [OF u b, of a] db by linarith
  have "circ_dist a b \<le> circ_dist a s + 2 * snapError u a" if s: "s \<in> set snaps" for s
  proof (cases "- 517.5 \<le> a - s")
    case True
    from good [OF s True] le s have "d \<le> circ_dist a s + snapError u a" by fastforce
    with lower show ?thesis by linarith
  next
    case False
    then have "a - s < - 517.5" by simp
    from low_snap_nearer [OF a s this]
    obtain s' where s': "s' \<in> set snaps" "s' \<le> 135" "circ_dist a s' \<le> circ_dist a s" by blast
    from a s'(2) have "- 517.5 \<le> a - s'" by linarith
    from good [OF s'(1) this] le s'(1) have "d \<le> circ_dist a s' + snapError u a" by fastforce
    with lower s'(3) show ?thesis by linarith
  qed
  moreover have "snapAngle rnd a True = b" by (simp add: snapAngle_def bd)
  ultimately show ?thesis using b by simp
qed

text \<open>In exact arithmetic the angle returned is a nearest member of the list.\<close>

lemma snapAngle_exact_arithmetic:
  assumes "- 382.5 \<le> a"
  shows "snapAngle (\<lambda>x. x) a True \<in> set snaps \<and>
         (\<forall>s\<in>set snaps. circ_dist a (snapAngle (\<lambda>x. x) a True) \<le> circ_dist a s)"
proof -
  have "rounding 0 (\<lambda>x. x)" by (simp add: rounding_def mono_def)
  from snapAngle_near [OF this _ assms] show ?thesis by (simp add: snapError_def)
qed

text \<open>The deltas that the loop computes in double arithmetic at \<open>tieAngle\<close>.\<close>

lemma tie_delta_0: "snapDelta roundDouble tieAngle 0 = 15 / 2"
proof -
  have a: "roundDouble (tieAngle - 0) = 8444249301319681 / 1125899906842624"
    using roundDouble_eval [of "tieAngle - 0" 50]
    by (simp add: roundHalfEven_def tieAngle_def)
  have b: "roundDouble (8444249301319681 / 1125899906842624 + 540) = 1095 / 2"
    using roundDouble_eval [of "8444249301319681 / 1125899906842624 + 540" 43]
    by (simp add: roundHalfEven_def)
  have c: "js_rem (1095 / 2) 360 = 375 / 2"
    by (simp add: js_rem_def)
  have d: "roundDouble (375 / 2 - 180) = 15 / 2"
    using roundDouble_eval [of "375 / 2 - 180" 50]
    by (simp add: roundHalfEven_def)
  show ?thesis
    unfolding snapDelta_def a b c d by simp
qed

lemma tie_delta_15: "snapDelta roundDouble tieAngle 15 = 15 / 2"
proof -
  have a: "roundDouble (tieAngle - 15) = - (8444249301319679 / 1125899906842624)"
    using roundDouble_eval [of "tieAngle - 15" 50]
    by (simp add: roundHalfEven_def tieAngle_def)
  have b: "roundDouble (- (8444249301319679 / 1125899906842624) + 540) = 1065 / 2"
    using roundDouble_eval [of "- (8444249301319679 / 1125899906842624) + 540" 43]
    by (simp add: roundHalfEven_def)
  have c: "js_rem (1065 / 2) 360 = 345 / 2"
    by (simp add: js_rem_def)
  have d: "roundDouble (345 / 2 - 180) = - (15 / 2)"
    using roundDouble_eval [of "345 / 2 - 180" 50]
    by (simp add: roundHalfEven_def)
  show ?thesis
    unfolding snapDelta_def a b c d by simp
qed

lemma tie_delta_30: "snapDelta roundDouble tieAngle 30 = 45 / 2"
proof -
  have a: "roundDouble (tieAngle - 30) = - (45 / 2)"
    using roundDouble_eval [of "tieAngle - 30" 48]
    by (simp add: roundHalfEven_def tieAngle_def)
  have b: "roundDouble (- (45 / 2) + 540) = 1035 / 2"
    using roundDouble_eval [of "- (45 / 2) + 540" 43]
    by (simp add: roundHalfEven_def)
  have c: "js_rem (1035 / 2) 360 = 315 / 2"
    by (simp add: js_rem_def)
  have d: "roundDouble (315 / 2 - 180) = - (45 / 2)"
    using roundDouble_eval [of "315 / 2 - 180" 48]
    by (simp add: roundHalfEven_def)
  show ?thesis
    unfolding snapDelta_def a b c d by simp
qed

lemma tie_delta_45: "snapDelta roundDouble tieAngle 45 = 75 / 2"
proof -
  have a: "roundDouble (tieAngle - 45) = - (75 / 2)"
    using roundDouble_eval [of "tieAngle - 45" 47]
    by (simp add: roundHalfEven_def tieAngle_def)
  have b: "roundDouble (- (75 / 2) + 540) = 1005 / 2"
    using roundDouble_eval [of "- (75 / 2) + 540" 44]
    by (simp add: roundHalfEven_def)
  have c: "js_rem (1005 / 2) 360 = 285 / 2"
    by (simp add: js_rem_def)
  have d: "roundDouble (285 / 2 - 180) = - (75 / 2)"
    using roundDouble_eval [of "285 / 2 - 180" 47]
    by (simp add: roundHalfEven_def)
  show ?thesis
    unfolding snapDelta_def a b c d by simp
qed

lemma tie_delta_90: "snapDelta roundDouble tieAngle 90 = 165 / 2"
proof -
  have a: "roundDouble (tieAngle - 90) = - (165 / 2)"
    using roundDouble_eval [of "tieAngle - 90" 46]
    by (simp add: roundHalfEven_def tieAngle_def)
  have b: "roundDouble (- (165 / 2) + 540) = 915 / 2"
    using roundDouble_eval [of "- (165 / 2) + 540" 44]
    by (simp add: roundHalfEven_def)
  have c: "js_rem (915 / 2) 360 = 195 / 2"
    by (simp add: js_rem_def)
  have d: "roundDouble (195 / 2 - 180) = - (165 / 2)"
    using roundDouble_eval [of "195 / 2 - 180" 46]
    by (simp add: roundHalfEven_def)
  show ?thesis
    unfolding snapDelta_def a b c d by simp
qed

lemma tie_delta_135: "snapDelta roundDouble tieAngle 135 = 255 / 2"
proof -
  have a: "roundDouble (tieAngle - 135) = - (255 / 2)"
    using roundDouble_eval [of "tieAngle - 135" 46]
    by (simp add: roundHalfEven_def tieAngle_def)
  have b: "roundDouble (- (255 / 2) + 540) = 825 / 2"
    using roundDouble_eval [of "- (255 / 2) + 540" 44]
    by (simp add: roundHalfEven_def)
  have c: "js_rem (825 / 2) 360 = 105 / 2"
    by (simp add: js_rem_def)
  have d: "roundDouble (105 / 2 - 180) = - (255 / 2)"
    using roundDouble_eval [of "105 / 2 - 180" 46]
    by (simp add: roundHalfEven_def)
  show ?thesis
    unfolding snapDelta_def a b c d by simp
qed

lemma tie_delta_180: "snapDelta roundDouble tieAngle 180 = 345 / 2"
proof -
  have a: "roundDouble (tieAngle - 180) = - (345 / 2)"
    using roundDouble_eval [of "tieAngle - 180" 45]
    by (simp add: roundHalfEven_def tieAngle_def)
  have b: "roundDouble (- (345 / 2) + 540) = 735 / 2"
    using roundDouble_eval [of "- (345 / 2) + 540" 44]
    by (simp add: roundHalfEven_def)
  have c: "js_rem (735 / 2) 360 = 15 / 2"
    by (simp add: js_rem_def)
  have d: "roundDouble (15 / 2 - 180) = - (345 / 2)"
    using roundDouble_eval [of "15 / 2 - 180" 45]
    by (simp add: roundHalfEven_def)
  show ?thesis
    unfolding snapDelta_def a b c d by simp
qed

lemma tie_delta_225: "snapDelta roundDouble tieAngle 225 = 285 / 2"
proof -
  have a: "roundDouble (tieAngle - 225) = - (435 / 2)"
    using roundDouble_eval [of "tieAngle - 225" 45]
    by (simp add: roundHalfEven_def tieAngle_def)
  have b: "roundDouble (- (435 / 2) + 540) = 645 / 2"
    using roundDouble_eval [of "- (435 / 2) + 540" 44]
    by (simp add: roundHalfEven_def)
  have c: "js_rem (645 / 2) 360 = 645 / 2"
    by (simp add: js_rem_def)
  have d: "roundDouble (645 / 2 - 180) = 285 / 2"
    using roundDouble_eval [of "645 / 2 - 180" 45]
    by (simp add: roundHalfEven_def)
  show ?thesis
    unfolding snapDelta_def a b c d by simp
qed

lemma tie_delta_270: "snapDelta roundDouble tieAngle 270 = 195 / 2"
proof -
  have a: "roundDouble (tieAngle - 270) = - (525 / 2)"
    using roundDouble_eval [of "tieAngle - 270" 44]
    by (simp add: roundHalfEven_def tieAngle_def)
  have b: "roundDouble (- (525 / 2) + 540) = 555 / 2"
    using roundDouble_eval [of "- (525 / 2) + 540" 44]
    by (simp add: roundHalfEven_def)
  have c: "js_rem (555 / 2) 360 = 555 / 2"
    by (simp add: js_rem_def)
  have d: "roundDouble (555 / 2 - 180) = 195 / 2"
    using roundDouble_eval [of "555 / 2 - 180" 46]
    by (simp add: roundHalfEven_def)
  show ?thesis
    unfolding snapDelta_def a b c d by simp
qed

lemma tie_delta_315: "snapDelta roundDouble tieAngle 315 = 105 / 2"
proof -
  have a: "roundDouble (tieAngle - 315) = - (615 / 2)"
    using roundDouble_eval [of "tieAngle - 315" 44]
    by (simp add: roundHalfEven_def tieAngle_def)
  have b: "roundDouble (- (615 / 2) + 540) = 465 / 2"
    using roundDouble_eval [of "- (615 / 2) + 540" 45]
    by (simp add: roundHalfEven_def)
  have c: "js_rem (465 / 2) 360 = 465 / 2"
    by (simp add: js_rem_def)
  have d: "roundDouble (465 / 2 - 180) = 105 / 2"
    using roundDouble_eval [of "465 / 2 - 180" 47]
    by (simp add: roundHalfEven_def)
  show ?thesis
    unfolding snapDelta_def a b c d by simp
qed

lemma tie_result: "snapAngle roundDouble tieAngle True = 0"
  by (simp add: snapAngle_def snaps_def snapStep_def Let_def
      tie_delta_0 tie_delta_15 tie_delta_30 tie_delta_45 tie_delta_90 tie_delta_135
      tie_delta_180 tie_delta_225 tie_delta_270 tie_delta_315)

lemma integer_results:
  "snapAngle roundDouble 60 True = 45"
  "snapAngle roundDouble (- 600) True = 315"
  "snapAngle roundDouble (- 383) True = 0"
  by (simp_all add: snapAngle_def snaps_def snapStep_def snapDelta_def js_rem_def Let_def
      roundDouble_numeral roundDouble_neg_numeral roundDouble_zero)

text \<open>
  Claim C7, amended: \<open>snapAngle(angle, false)\<close> returns the angle unchanged. With an
  arithmetic that rounds with a relative error of at most \<open>u\<close>, where \<open>u\<close> is at most
  \<open>1/32\<close> (\<open>2^-53\<close> for the doubles of JavaScript, 0 for exact arithmetic), and for every
  angle of at least \<open>-382.5\<close> degrees, \<open>snapAngle(angle, true)\<close> returns a member of the list
  of the code, \<open>0, 15, 30, 45, 90, 135, 180, 225, 270, 315\<close>, and the circular distance
  from the angle to it exceeds the circular distance from the angle to any member of that
  list by at most \<open>2 u (3 |angle| + 1665)\<close>.
\<close>

theorem snapAngle_nearest_listed:
  "(rounding u rnd \<and> u \<le> 1 / 32 \<and> - 382.5 \<le> a \<longrightarrow>
      snapAngle rnd a True \<in> set snaps \<and>
      (\<forall>s\<in>set snaps.
         circ_dist a (snapAngle rnd a True) \<le> circ_dist a s + 2 * snapError u a)) \<and>
   snapAngle rnd a False = a"
proof -
  have "snapAngle rnd a False = a" by (simp add: snapAngle_def)
  with snapAngle_near [of u rnd a] show ?thesis by blast
qed

text \<open>In double arithmetic, 50 degrees snaps to a listed angle no farther than 45 is.\<close>

theorem snapAngle_nearest_listed_witness:
  "rounding (1 / 2 ^ 53) roundDouble \<and> (1 / 2 ^ 53 :: real) \<le> 1 / 32 \<and> (- 382.5 :: real) \<le> 50 \<and>
   snapAngle roundDouble 50 True \<in> set snaps \<and>
   circ_dist 50 (snapAngle roundDouble 50 True)
     \<le> circ_dist 50 45 + 2 * snapError (1 / 2 ^ 53) 50 \<and>
   snapAngle roundDouble 50 False = 50"
proof -
  have small: "(1 / 2 ^ 53 :: real) \<le> 1 / 32" by simp
  have low: "(- 382.5 :: real) \<le> 50" by simp
  have "45 \<in> set snaps" by (simp add: snaps_def)
  with snapAngle_nearest_listed [of "1 / 2 ^ 53" roundDouble 50] rounding_roundDouble small low
  show ?thesis by blast
qed

text \<open>
  Claim C7 as stated fails at 60 degrees: 60 is a multiple of 15 between 0 and 315, at
  circular distance 0, and the code returns 45. Below \<open>-382.5\<close> the result need not be
  nearest even in the list of the code: \<open>-600\<close> is 120 modulo 360, at circular distance 15
  from 135, and the code returns 315; \<open>-383\<close> is 337 modulo 360, at circular distance 22
  from 315, and the code returns 0. And the result need not be exactly nearest: at the
  double next above 7.5 both 0 and 15 get the delta 7.5 and the code returns 0, though 15
  is nearer. All four are computed in double arithmetic.
\<close>

theorem snapAngle_sixty_counterexample:
  "snapAngle roundDouble 60 True = 45 \<and> 60 \<in> set spec_snaps \<and>
   circ_dist 60 60 < circ_dist 60 (snapAngle roundDouble 60 True) \<and>
   snapAngle roundDouble (- 600) True = 315 \<and> 135 \<in> set snaps \<and>
   circ_dist (- 600) 135 < circ_dist (- 600) (snapAngle roundDouble (- 600) True) \<and>
   snapAngle roundDouble (- 383) True = 0 \<and> 315 \<in> set snaps \<and>
   circ_dist (- 383) 315 < circ_dist (- 383) (snapAngle roundDouble (- 383) True) \<and>
   snapAngle roundDouble tieAngle True = 0 \<and> 15 \<in> set snaps \<and>
   circ_dist tieAngle 15 < circ_dist tieAngle (snapAngle roundDouble tieAngle True)"
  unfolding integer_results tie_result
  by (simp add: snaps_def circ_dist_def spec_snaps_def tieAngle_def Let_def)

subsection \<open>Overlap is not a precondition\<close>

lemma setAreaRect_applies:
  assumes "findArea p i = Some a" and "shape a = Rect r0"
  shows "setAreaRect ev p i r =
           result (ensureUpdated ev (setShape i (Rect (constrainRectToBounds r (canvas p) MIN_SIZE)) p))
             (Some [i]) ''Update area''"
  using assms by (simp add: setAreaRect_def)

lemma createArea_applies:
  "areas (res_plan (performCommand ev p (AreaCreate payload))) =
     areas p @ drop (length (areas p)) (areas (res_plan (performCommand ev p (AreaCreate payload)))) \<and>
   map shape (drop (length (areas p)) (areas (res_plan (performCommand ev p (AreaCreate payload)))))
     = map Rect (createRects p payload)"
  by (simp add: createArea_def createAreasFromRect_def Let_def result_def areas_ensureUpdated
      mkArea_def o_def map_nth_fun)

text \<open>
  Claim C8: an \<open>area/set-rect\<close> whose clamped rect overlaps another rect area of the
  plan still replaces the shape of its target (a rect area) by the rect clamped to the
  canvas, selects it and leaves every other area as it was; an \<open>area/create\<close> whose
  rects overlap a rect area of the plan still appends them, the payload's rect clamped to
  the canvas and split, after the areas of the plan.
\<close>

theorem overlap_not_a_precondition:
  "(findArea p i = Some a \<and> shape a = Rect r0 \<and>
    overlapsAny (Some i) (constrainRectToBounds r (canvas p) MIN_SIZE) p \<longrightarrow>
      findArea (res_plan (performCommand ev p (AreaSetRect i r))) i
        = Some (a\<lparr>shape := Rect (constrainRectToBounds r (canvas p) MIN_SIZE)\<rparr>) \<and>
      (\<forall>j. j \<noteq> i \<longrightarrow> findArea (res_plan (performCommand ev p (AreaSetRect i r))) j = findArea p j) \<and>
      res_selection (performCommand ev p (AreaSetRect i r)) = Some [i]) \<and>
   (list_ex (\<lambda>rc. overlapsAny None rc p) (createRects p payload) \<longrightarrow>
      take (length (areas p)) (areas (res_plan (performCommand ev p (AreaCreate payload)))) = areas p \<and>
      map shape (drop (length (areas p)) (areas (res_plan (performCommand ev p (AreaCreate payload)))))
        = map Rect (createRects p payload))"
proof -
  have "findArea (res_plan (performCommand ev p (AreaSetRect i r))) i
          = Some (a\<lparr>shape := Rect (constrainRectToBounds r (canvas p) MIN_SIZE)\<rparr>) \<and>
        (\<forall>j. j \<noteq> i \<longrightarrow> findArea (res_plan (performCommand ev p (AreaSetRect i r))) j = findArea p j) \<and>
        res_selection (performCommand ev p (AreaSetRect i r)) = Some [i]"
    if "findArea p i = Some a" and "shape a = Rect r0"
    using that
    by (simp add: setAreaRect_applies[OF that] result_def findArea_ensureUpdated
        findArea_setShape findArea_setShape_other)
  moreover have "take (length (areas p)) (areas (res_plan (performCommand ev p (AreaCreate payload)))) = areas p"
    using createArea_applies[of ev p payload]
    by (metis append_eq_conv_conj)
  ultimately show ?thesis
    using createArea_applies[of ev p payload] by blast
qed
lemma constrain_demo:
  "constrainRectToBounds (mkRect 5 2 4 3) (canvas demoPlan) MIN_SIZE = mkRect 5 2 4 3"
  by (simp add: constrainRectToBounds_def demoPlan_canvas MIN_SIZE_def clamp_def mkRect_def Let_def)

text \<open>
  On \<open>demoPlan\<close> the rect \<open>{5, 2, 4, 3}\<close> overlaps the second area, and both commands
  place it.
\<close>

theorem overlap_not_a_precondition_witness:
  "findArea demoPlan ''area-a'' = Some (hd (areas demoPlan)) \<and>
   overlapsAny (Some ''area-a'') (constrainRectToBounds (mkRect 5 2 4 3) (canvas demoPlan) MIN_SIZE) demoPlan \<and>
   findArea (res_plan (performCommand demoEnv demoPlan (AreaSetRect ''area-a'' (mkRect 5 2 4 3)))) ''area-a''
     = Some ((hd (areas demoPlan))\<lparr>shape := Rect (mkRect 5 2 4 3)\<rparr>) \<and>
   list_ex (\<lambda>rc. overlapsAny None rc demoPlan)
     (createRects demoPlan \<lparr>cp_rect = mkRect 5 2 4 3, cp_partitions = None, cp_direction = None,
        cp_fill = None, cp_stroke = None, cp_name = None, cp_parentId = None\<rparr>) \<and>
   map shape (drop (length (areas demoPlan))
     (areas (res_plan (performCommand demoEnv demoPlan
        (AreaCreate \<lparr>cp_rect = mkRect 5 2 4 3, cp_partitions = None, cp_direction = None,
           cp_fill = None, cp_stroke = None, cp_name = None, cp_parentId = None\<rparr>)))))
     = [Rect (mkRect 5 2 4 3)]"
proof -
  let ?pl = "\<lparr>cp_rect = mkRect 5 2 4 3, cp_partitions = None, cp_direction = None,
        cp_fill = None, cp_stroke = None, cp_name = None, cp_parentId = None\<rparr>"
  have f: "findArea demoPlan ''area-a'' = Some (hd (areas demoPlan))"
    by (simp add: findArea_def demoPlan_areas mkArea_def)
  have s: "shape (hd (areas demoPlan)) =
             Rect ((mkRect 0 0 1 1)\<lparr>rect_x := 1, rect_y := 1, rect_width := 4, rect_height := 3\<rparr>)"
    by (simp add: demoPlan_areas mkArea_def)
  have o: "overlapsAny (Some ''area-a'') (constrainRectToBounds (mkRect 5 2 4 3) (canvas demoPlan) MIN_SIZE) demoPlan"
    unfolding constrain_demo
    by (simp add: overlapsAny_def demoPlan_areas mkArea_def rectsOverlap_def mkRect_def)
  have c: "createRects demoPlan ?pl = [mkRect 5 2 4 3]"
    by (simp add: createRects_def Let_def orElse_def splitRectEvenly_def cloneRect_def constrain_demo)
  have o2: "list_ex (\<lambda>rc. overlapsAny None rc demoPlan) (createRects demoPlan ?pl)"
    unfolding c
    by (simp add: overlapsAny_def demoPlan_areas mkArea_def rectsOverlap_def mkRect_def)
  from overlap_not_a_precondition[of demoPlan "''area-a''" "hd (areas demoPlan)" _ "mkRect 5 2 4 3" demoEnv ?pl]
    f s o o2
  show ?thesis by (simp add: constrain_demo c)
qed


subsection \<open>Import and export\<close>

lemma update_fresh: "k \<notin> fst ` set acc \<Longrightarrow> AList.update k v acc = acc @ [(k, v)]"
  by (induction acc) auto

lemma defineProps_acc:
  "distinct (map fst (acc @ kvs)) \<Longrightarrow>
   foldl (\<lambda>acc (k, v). AList.update k v acc) acc kvs = acc @ kvs"
proof (induction kvs arbitrary: acc)
  case Nil
  then show ?case by simp
next
  case (Cons kv kvs)
  obtain k v where kv: "kv = (k, v)" by (cases kv)
  from Cons.prems have fresh: "k \<notin> fst ` set acc" by (auto simp: kv)
  from Cons.prems have "distinct (map fst ((acc @ [(k, v)]) @ kvs))" by (simp add: kv)
  from Cons.IH [OF this] show ?case by (simp add: kv update_fresh [OF fresh])
qed

lemma defineProps_distinct: "distinct (map fst kvs) \<Longrightarrow> defineProps kvs = kvs"
  using defineProps_acc [of "[]" kvs] by (simp add: defineProps_def)

lemma definedProps_Cons:
  "definedProps ((k, Some j) # kvs) = (k, j) # definedProps kvs"
  "definedProps ((k, None) # kvs) = definedProps kvs"
  "definedProps [] = []"
  by (simp_all add: definedProps_def List.map_filter_simps)

text \<open>A value that JSON can carry has a JSON text, and parsing the text gives it back.\<close>

lemma serialize_revive:
  "jsonSafe v \<Longrightarrow> \<exists>j. serializeJson v = Some j \<and> reviveJson j = v"
proof (induction v)
  case (JsArray xs)
  have "map reviveJson (map orNull (map serializeJson xs)) = xs"
  proof -
    have "\<And>x. x \<in> set xs \<Longrightarrow> reviveJson (orNull (serializeJson x)) = x"
    proof -
      fix x assume x: "x \<in> set xs"
      with JsArray.prems have "jsonSafe x" by (auto simp: list_all_iff)
      from JsArray.IH [OF x this] show "reviveJson (orNull (serializeJson x)) = x"
        by (auto simp: orNull_def)
    qed
    then show ?thesis by (simp add: map_idI)
  qed
  then show ?case by simp
next
  case (JsObject kvs)
  from JsObject.prems have dist: "distinct (map fst kvs)" by simp
  have safe: "\<And>k x. (k, x) \<in> set kvs \<Longrightarrow> jsonSafe x"
    using JsObject.prems by (auto simp: list_all_iff)
  have ih: "\<And>k x. (k, x) \<in> set kvs \<Longrightarrow> \<exists>j. serializeJson x = Some j \<and> reviveJson j = x"
  proof -
    fix k x assume m: "(k, x) \<in> set kvs"
    have "x \<in> Basic_BNFs.snds (k, x)" by (simp add: snds.simps)
    from JsObject.IH [OF m this safe [OF m]]
    show "\<exists>j. serializeJson x = Some j \<and> reviveJson j = x" .
  qed
  have "map (map_prod id reviveJson) (definedProps (map (map_prod id serializeJson) kvs)) = kvs"
    using ih
  proof (induction kvs)
    case Nil
    then show ?case by (simp add: definedProps_Cons)
  next
    case (Cons kv kvs)
    obtain k x where kv: "kv = (k, x)" by (cases kv)
    from Cons.prems [of k x] obtain j where j: "serializeJson x = Some j" "reviveJson j = x"
      by (auto simp: kv)
    have "map (map_prod id reviveJson) (definedProps (map (map_prod id serializeJson) kvs)) = kvs"
    proof (rule Cons.IH)
      fix k' x' assume "(k', x') \<in> set kvs"
      then show "\<exists>j. serializeJson x' = Some j \<and> reviveJson j = x'"
        using Cons.prems [of k' x'] by simp
    qed
    then show ?case unfolding id_def by (simp add: kv j definedProps_Cons)
  qed
  then show ?case using dist by (simp add: defineProps_distinct)
qed simp_all

text \<open>What \<open>JSON.parse\<close> returns is a value that JSON can carry.\<close>

lemma update_values: "(a, b) \<in> set (AList.update k v al) \<Longrightarrow> b = v \<or> (a, b) \<in> set al"
  by (induction al) (auto split: if_splits)

lemma defineProps_fold_ok:
  "distinct (map fst acc) \<Longrightarrow> (\<And>a x. (a, x) \<in> set acc \<Longrightarrow> P x) \<Longrightarrow>
   (\<And>a x. (a, x) \<in> set kvs \<Longrightarrow> P x) \<Longrightarrow>
   distinct (map fst (foldl (\<lambda>acc (k, v). AList.update k v acc) acc kvs)) \<and>
   (\<forall>(a, x) \<in> set (foldl (\<lambda>acc (k, v). AList.update k v acc) acc kvs). P x)"
proof (induction kvs arbitrary: acc)
  case Nil
  then show ?case by auto
next
  case (Cons kv kvs)
  obtain k v where kv: "kv = (k, v)" by (cases kv)
  have d: "distinct (map fst (AList.update k v acc))"
    using Cons.prems(1) by (rule distinct_update)
  have pv: "P v" using Cons.prems(3) [of k v] by (simp add: kv)
  have a: "\<And>a x. (a, x) \<in> set (AList.update k v acc) \<Longrightarrow> P x"
  proof -
    fix a x assume "(a, x) \<in> set (AList.update k v acc)"
    from update_values [OF this] show "P x" using pv Cons.prems(2) by blast
  qed
  have r: "\<And>a x. (a, x) \<in> set kvs \<Longrightarrow> P x"
  proof -
    fix a x assume "(a, x) \<in> set kvs"
    then show "P x" using Cons.prems(3) [of a x] by simp
  qed
  from Cons.IH [OF d a r] show ?case by (simp add: kv)
qed

lemma defineProps_ok:
  assumes "\<And>a x. (a, x) \<in> set kvs \<Longrightarrow> P x"
  shows "distinct (map fst (defineProps kvs)) \<and> (\<forall>(a, x) \<in> set (defineProps kvs). P x)"
proof -
  have "distinct (map fst ([] :: (string \<times> jsvalue) list))" by simp
  moreover have "\<And>a x. (a, x) \<in> set ([] :: (string \<times> jsvalue) list) \<Longrightarrow> P x" by simp
  ultimately show ?thesis
    unfolding defineProps_def using assms by (rule defineProps_fold_ok)
qed

lemma jsonSafe_object:
  "distinct (map fst kvs) \<Longrightarrow> (\<forall>(a, x) \<in> set kvs. jsonSafe x) \<Longrightarrow> jsonSafe (JsObject kvs)"
  by (induction kvs) auto

lemma revive_safe: "jsonSafe (reviveJson j)"
proof (induction j)
  case (JArray xs)
  then show ?case by (simp add: list_all_iff)
next
  case (JObject kvs)
  have s: "\<And>a x. (a, x) \<in> set (map (map_prod id reviveJson) kvs) \<Longrightarrow> jsonSafe x"
  proof -
    fix a x assume "(a, x) \<in> set (map (map_prod id reviveJson) kvs)"
    then obtain y where m: "(a, y) \<in> set kvs" and x: "x = reviveJson y" by auto
    have "y \<in> Basic_BNFs.snds (a, y)" by (simp add: snds.simps)
    from JObject.IH [OF m this] show "jsonSafe x" by (simp add: x)
  qed
  have "distinct (map fst (defineProps (map (map_prod id reviveJson) kvs))) \<and>
        (\<forall>(a, x) \<in> set (defineProps (map (map_prod id reviveJson) kvs)). jsonSafe x)"
    using s by (rule defineProps_ok)
  then show ?case by (simp add: jsonSafe_object del: jsonSafe.simps)
qed simp_all

text \<open>
  What the round trip makes of the two plans of the counterexample below: the infinite
  zoom comes back as \<open>null\<close>, and the area comes back without its \<open>parentId\<close> property.
\<close>

lemma round_trip_of_infinite_zoom:
  "importPlanFromJson (exportPlanToJson
       (planValue JsInfinity ''2024-05-01T10:00:00.000Z'' seedAreaValues))
     = Some (planValue JsNull ''2024-05-01T10:00:00.000Z'' seedAreaValues)"
  by (simp add: importPlanFromJson_def exportPlanToJson_def planValue_def seedAreaValues_def
      rectValue_def definedProps_Cons defineProps_def orNull_def propOf_def truthy_def)

lemma round_trip_of_undefined_parent:
  "importPlanFromJson (exportPlanToJson
       (planValue (JsNum 1) ''2024-05-01T10:00:00.000Z''
          (seedAreaValues @ [createdAreaValue JsUndefined])))
     = Some (planValue (JsNum 1) ''2024-05-01T10:00:00.000Z''
          (seedAreaValues @ [droppedAreaValue]))"
  by (simp add: importPlanFromJson_def exportPlanToJson_def planValue_def seedAreaValues_def
      rectValue_def createdAreaValue_def droppedAreaValue_def definedProps_Cons
      defineProps_def orNull_def propOf_def truthy_def)

text \<open>
  Claim C9, refuted as stated. \<open>plan/set-viewport\<close> with \<open>zoom: Infinity\<close> on the seed plan
  stores \<open>Math.max(0.1, Infinity)\<close>, which is \<open>Infinity\<close>; the export writes it as \<open>null\<close>
  and the import returns a plan whose zoom is \<open>null\<close>. \<open>area/create\<close> without a
  \<open>parentId\<close> on the seed plan pushes an area whose own property \<open>parentId\<close> holds
  \<open>undefined\<close>; the export leaves the property out and the imported area does not have
  it. In both cases the import succeeds and the imported plan is not the exported one.
\<close>

theorem import_export_lossy_counterexample:
  "importPlanFromJson (exportPlanToJson
       (planValue JsInfinity ''2024-05-01T10:00:00.000Z'' seedAreaValues))
     \<noteq> Some (planValue JsInfinity ''2024-05-01T10:00:00.000Z'' seedAreaValues)
   \<and> importPlanFromJson (exportPlanToJson
       (planValue (JsNum 1) ''2024-05-01T10:00:00.000Z''
          (seedAreaValues @ [createdAreaValue JsUndefined])))
     \<noteq> Some (planValue (JsNum 1) ''2024-05-01T10:00:00.000Z''
          (seedAreaValues @ [createdAreaValue JsUndefined]))"
  unfolding round_trip_of_infinite_zoom round_trip_of_undefined_parent
  by (simp add: planValue_def createdAreaValue_def droppedAreaValue_def)

text \<open>
  Claim C9, amended: for every plan object, the import of the export succeeds and returns
  a value equal to the plan, every property of every area included (\<open>parentId\<close> and
  \<open>holes\<close> where they are present), exactly when no number in the plan is NaN or
  infinite, no property or array element holds \<open>undefined\<close>, and the \<open>version\<close> of the
  plan is truthy.
\<close>

theorem import_export_round_trip:
  "importPlanFromJson (exportPlanToJson p) = Some p
     \<longleftrightarrow> jsonSafe p \<and> (\<exists>v. propOf p ''version'' = Some v \<and> truthy v)"
proof
  assume rt: "importPlanFromJson (exportPlanToJson p) = Some p"
  then obtain j where j: "serializeJson p = Some j"
    by (cases "serializeJson p") (simp_all add: importPlanFromJson_def exportPlanToJson_def)
  from rt j have "reviveJson j = p \<and> (\<exists>v. propOf p ''version'' = Some v \<and> truthy v)"
    by (cases "propOf (reviveJson j) ''version''")
       (auto simp: importPlanFromJson_def exportPlanToJson_def Let_def split: if_splits)
  then show "jsonSafe p \<and> (\<exists>v. propOf p ''version'' = Some v \<and> truthy v)"
    using revive_safe [of j] by auto
next
  assume a: "jsonSafe p \<and> (\<exists>v. propOf p ''version'' = Some v \<and> truthy v)"
  then obtain v where v: "propOf p ''version'' = Some v" "truthy v" by blast
  from a have "jsonSafe p" by simp
  from serialize_revive [OF this]
  obtain j where "serializeJson p = Some j" "reviveJson j = p" by blast
  then show "importPlanFromJson (exportPlanToJson p) = Some p"
    using v by (simp add: importPlanFromJson_def exportPlanToJson_def)
qed

text \<open>The seed plan, as \<open>seedPlan\<close> builds it, comes back from the round trip.\<close>

theorem import_export_round_trip_witness:
  "jsonSafe (planValue (JsNum 1) ''2024-05-01T09:00:00.001Z'' seedAreaValues)
   \<and> propOf (planValue (JsNum 1) ''2024-05-01T09:00:00.001Z'' seedAreaValues) ''version''
       = Some (JsString ''1.0'')
   \<and> truthy (JsString ''1.0'')
   \<and> importPlanFromJson (exportPlanToJson
         (planValue (JsNum 1) ''2024-05-01T09:00:00.001Z'' seedAreaValues))
       = Some (planValue (JsNum 1) ''2024-05-01T09:00:00.001Z'' seedAreaValues)"
proof -
  have safe: "jsonSafe (planValue (JsNum 1) ''2024-05-01T09:00:00.001Z'' seedAreaValues)"
    by (simp add: planValue_def seedAreaValues_def rectValue_def)
  have ver: "propOf (planValue (JsNum 1) ''2024-05-01T09:00:00.001Z'' seedAreaValues) ''version''
       = Some (JsString ''1.0'')"
    by (simp add: planValue_def propOf_def)
  have tr: "truthy (JsString ''1.0'')" by (simp add: truthy_def)
  from import_export_round_trip
         [of "planValue (JsNum 1) ''2024-05-01T09:00:00.001Z'' seedAreaValues"] safe ver tr
  show ?thesis by simp
qed

end
